theory Spec2Isabelle
  imports Main "HOL-Library.Word"
begin

section \<open>Values of the Go program\<close>

text \<open>
  The tracer of \<^verbatim>\<open>internal/log\<close> (files \<^verbatim>\<open>trace2.go\<close> and
  \<^verbatim>\<open>tr2-perf-encoder.go\<close>, and the earlier version of the encoder that takes an
  encoder configuration) is embedded as functions over an explicit world: the
  store of context nodes, the entries handed to the zap logger and the child counter.
  Readings of the environment made during one call (clock, caller frame, fresh UUID,
  \<^verbatim>\<open>os.Args\<close>) and the library functions \<^verbatim>\<open>fmt.Sprintf\<close> and
  \<^verbatim>\<open>filepath.Base\<close> are passed in a record \<open>env\<close>.
\<close>

subsection \<open>Errors and the type of logged errors\<close>

text \<open>
  A value of Go's interface type \<^verbatim>\<open>error\<close>: nil, or an error with its message
  (what \<^verbatim>\<open>err.Error()\<close> returns).
\<close>

datatype goerror = ErrNil | Err string

text \<open>
  The type \<^verbatim>\<open>loggedError\<close> is declared in another file of the package. Its uses in
  \<^verbatim>\<open>trace2.go\<close> fix what it is: \<^verbatim>\<open>Error\<close> and \<^verbatim>\<open>Errorf\<close> convert a value of
  type \<^verbatim>\<open>error\<close> with \<^verbatim>\<open>loggedError(err)\<close> and return the result as an
  \<^verbatim>\<open>error\<close>, which Go accepts only for an interface type whose method set is that of
  \<^verbatim>\<open>error\<close>. So the conversion returns the value it is given, and the type assertion
  \<^verbatim>\<open>_, ok := x.(loggedError)\<close> holds of every error that is not nil, whether or not
  the recorder has seen it before.
\<close>

definition is_loggedError :: "goerror \<Rightarrow> bool" where
  "is_loggedError e = (e \<noteq> ErrNil)"

definition loggedError :: "goerror \<Rightarrow> goerror" where
  "loggedError e = e"

text \<open>
  An argument of the variadic \<^verbatim>\<open>a ...any\<close> of \<^verbatim>\<open>Errorf\<close>. The assertion
  \<^verbatim>\<open>fmtArg.(loggedError)\<close> holds of an argument that is an error and not nil.
\<close>

datatype goany = AnyError goerror | AnyString string | AnyInt int | AnyBool bool

fun any_is_loggedError :: "goany \<Rightarrow> bool" where
  "any_is_loggedError (AnyError e) = is_loggedError e"
| "any_is_loggedError a = False"

text \<open>A panic of the Go runtime ends the call; it is a value of the model.\<close>

datatype panic = NilDereference | TypeAssertion string | NegativeRepeat

subsection \<open>zap fields and log entries\<close>

text \<open>
  A \<^verbatim>\<open>zap.Field\<close> is a key with a typed payload. \<^verbatim>\<open>zap.Int\<close> builds a field of
  \<^verbatim>\<open>Int64Type\<close>, \<^verbatim>\<open>zap.Duration\<close> holds nanoseconds.
\<close>

datatype fieldval =
    StringV string
  | Int64V int
  | Int32V int
  | BoolV bool
  | DurationV int
  | StringsV "string list"

type_synonym field = "string \<times> fieldval"
type_synonym fieldList = "field list"

definition zap_String :: "string \<Rightarrow> string \<Rightarrow> field" where
  "zap_String k v = (k, StringV v)"

definition zap_Int :: "string \<Rightarrow> int \<Rightarrow> field" where
  "zap_Int k v = (k, Int64V v)"

definition zap_Int32 :: "string \<Rightarrow> 32 word \<Rightarrow> field" where
  "zap_Int32 k v = (k, Int32V (sint v))"

definition zap_Bool :: "string \<Rightarrow> bool \<Rightarrow> field" where
  "zap_Bool k v = (k, BoolV v)"

definition zap_Duration :: "string \<Rightarrow> int \<Rightarrow> field" where
  "zap_Duration k v = (k, DurationV v)"

definition zap_Strings :: "string \<Rightarrow> string list \<Rightarrow> field" where
  "zap_Strings k v = (k, StringsV v)"

text \<open>
  The levels the recorder logs at. The core is made with the level \<^verbatim>\<open>zap.DebugLevel\<close>,
  so an entry of each of them passes.
\<close>

datatype level = DebugLevel | InfoLevel | ErrorLevel

record entry =
  Level :: level
  Time :: int
  Message :: string

subsection \<open>Event and field names\<close>

definition tr2Event_Start :: string where "tr2Event_Start = ''start''"
definition tr2Event_CmdName :: string where "tr2Event_CmdName = ''cmd_name''"
definition tr2Event_RegionEnter :: string where "tr2Event_RegionEnter = ''region_enter''"
definition tr2Event_RegionLeave :: string where "tr2Event_RegionLeave = ''region_leave''"
definition tr2Event_ChildStart :: string where "tr2Event_ChildStart = ''child_start''"
definition tr2Event_ChildReady :: string where "tr2Event_ChildReady = ''child_ready''"
definition tr2Event_ChildExit :: string where "tr2Event_ChildExit = ''child_exit''"
definition tr2Event_Error :: string where "tr2Event_Error = ''error''"
definition tr2Event_Exit :: string where "tr2Event_Exit = ''exit''"
definition tr2Event_AtExit :: string where "tr2Event_AtExit = ''atexit''"

definition tr2Field_Sid :: string where "tr2Field_Sid = ''sid''"
definition tr2Field_TAbs :: string where "tr2Field_TAbs = ''t_abs''"
definition tr2Field_TRel :: string where "tr2Field_TRel = ''t_rel''"
definition tr2Field_Nesting :: string where "tr2Field_Nesting = ''nesting''"
definition tr2Field_Thread :: string where "tr2Field_Thread = ''thread''"
definition tr2Field_File :: string where "tr2Field_File = ''file''"
definition tr2Field_Line :: string where "tr2Field_Line = ''line''"
definition tr2Field_Name :: string where "tr2Field_Name = ''name''"
definition tr2Field_Argv :: string where "tr2Field_Argv = ''argv''"
definition tr2Field_Code :: string where "tr2Field_Code = ''code''"
definition tr2Field_Category :: string where "tr2Field_Category = ''category''"
definition tr2Field_Label :: string where "tr2Field_Label = ''label''"
definition tr2Field_ChildId :: string where "tr2Field_ChildId = ''child_id''"
definition tr2Field_ChildClass :: string where "tr2Field_ChildClass = ''child_class''"
definition tr2Field_UseShell :: string where "tr2Field_UseShell = ''use_shell''"
definition tr2Field_Ready :: string where "tr2Field_Ready = ''ready''"
definition tr2Field_Pid :: string where "tr2Field_Pid = ''pid''"
definition tr2Field_Msg :: string where "tr2Field_Msg = ''msg''"
definition tr2Field_Fmt :: string where "tr2Field_Fmt = ''fmt''"

lemmas tr2Event_defs =
  tr2Event_Start_def tr2Event_CmdName_def tr2Event_RegionEnter_def tr2Event_RegionLeave_def
  tr2Event_ChildStart_def tr2Event_ChildReady_def tr2Event_ChildExit_def tr2Event_Error_def
  tr2Event_Exit_def tr2Event_AtExit_def

lemmas tr2Field_defs =
  tr2Field_Sid_def tr2Field_TAbs_def tr2Field_TRel_def tr2Field_Nesting_def
  tr2Field_Thread_def tr2Field_File_def tr2Field_Line_def tr2Field_Name_def
  tr2Field_Argv_def tr2Field_Code_def tr2Field_Category_def tr2Field_Label_def
  tr2Field_ChildId_def tr2Field_ChildClass_def tr2Field_UseShell_def tr2Field_Ready_def
  tr2Field_Pid_def tr2Field_Msg_def tr2Field_Fmt_def

section \<open>Contexts\<close>

text \<open>
  A \<^verbatim>\<open>context.Context\<close> is a pointer to an immutable node; \<^verbatim>\<open>context.WithValue\<close>
  allocates a node that points to its parent, and \<^verbatim>\<open>ctx.Value(key)\<close> walks towards the
  root. The store is the list of nodes in allocation order and a context is the index of its
  node, so a parent, which exists before its child is allocated, has the smaller index.
\<close>

type_synonym addr = nat

datatype ctxKey = sidId | parentRegionId

record trace2Region =
  level :: int
  tStart :: int

datatype ctxval = SidVal string | RegionVal trace2Region

datatype ctxnode =
    emptyCtx
  | valueCtx addr ctxKey ctxval
  | otherCtx addr

type_synonym store = "ctxnode list"

function ctx_Value :: "store \<Rightarrow> addr \<Rightarrow> ctxKey \<Rightarrow> ctxval option" where
  "ctx_Value h a k =
     (if a < length h then
        (case h ! a of
           emptyCtx \<Rightarrow> None
         | valueCtx p k' v \<Rightarrow>
             (if k' = k then Some v else if p < a then ctx_Value h p k else None)
         | otherCtx p \<Rightarrow> (if p < a then ctx_Value h p k else None))
      else None)"
  by pat_completeness auto
termination
  by (relation "measure (\<lambda>(h, a, k). a)") auto

declare ctx_Value.simps [simp del]

definition context_WithValue :: "store \<Rightarrow> addr \<Rightarrow> ctxKey \<Rightarrow> ctxval \<Rightarrow> store \<times> addr" where
  "context_WithValue h parent k v = (h @ [valueCtx parent k v], length h)"

text \<open>
  \<^verbatim>\<open>getContextValue[T]\<close> at its two instances: the value found under the key is
  asserted to be of type \<open>T\<close>; when there is none, or it has another type, the zero value of
  \<open>T\<close> comes back with \<open>False\<close>.
\<close>

definition zero_Region :: trace2Region where
  "zero_Region = \<lparr>level = 0, tStart = 0\<rparr>"

definition getContextValue_Region :: "store \<Rightarrow> addr \<Rightarrow> ctxKey \<Rightarrow> bool \<times> trace2Region" where
  "getContextValue_Region h ctx key =
     (case ctx_Value h ctx key of
        Some (RegionVal r) \<Rightarrow> (True, r)
      | _ \<Rightarrow> (False, zero_Region))"

definition getContextValue_UUID :: "store \<Rightarrow> addr \<Rightarrow> ctxKey \<Rightarrow> bool \<times> string" where
  "getContextValue_UUID h ctx key =
     (case ctx_Value h ctx key of
        Some (SidVal s) \<Rightarrow> (True, s)
      | _ \<Rightarrow> (False, []))"

definition getOrSetContextValue_UUID ::
  "store \<Rightarrow> addr \<Rightarrow> ctxKey \<Rightarrow> string \<Rightarrow> store \<times> addr \<times> string" where
  "getOrSetContextValue_UUID h ctx key newValue =
     (let (haveValue, val) = getContextValue_UUID h ctx key in
      if \<not> haveValue then
        (let (h', ctx') = context_WithValue h ctx key (SidVal newValue)
         in (h', ctx', newValue))
      else (h, ctx, val))"

section \<open>The recorder\<close>

record env =
  now :: int
  globalStart :: int
  runtime_Caller :: "(string \<times> int) option"
  filepath_Base :: "string \<Rightarrow> string"
  uuid_New :: string
  os_Args :: "string list"
  fmt_Sprintf :: "string \<Rightarrow> goany list \<Rightarrow> string"

text \<open>
  The world: the context store, the entries passed to \<^verbatim>\<open>t.logger\<close> so far (each with
  its fields, oldest first) and the field \<^verbatim>\<open>lastChildId\<close> of the recorder, an
  \<^verbatim>\<open>int32\<close>.
\<close>

record world =
  heap :: store
  log :: "(entry \<times> fieldList) list"
  lastChildId :: "32 word"

definition NewTrace2 :: world where
  "NewTrace2 = \<lparr>heap = [emptyCtx], log = [], lastChildId = - 1\<rparr>"

definition logger_Log :: "level \<Rightarrow> env \<Rightarrow> string \<Rightarrow> fieldList \<Rightarrow> world \<Rightarrow> world" where
  "logger_Log lvl e msg fs w =
     w\<lparr>log := log w @ [(\<lparr>Level = lvl, Time = now e, Message = msg\<rparr>, fs)]\<rparr>"

definition withTime :: "env \<Rightarrow> fieldList \<Rightarrow> fieldList" where
  "withTime e l = l @ [zap_Duration tr2Field_TAbs (now e - globalStart e)]"

definition withNesting :: "env \<Rightarrow> fieldList \<Rightarrow> trace2Region \<Rightarrow> bool \<Rightarrow> fieldList" where
  "withNesting e l r includeTRel =
     (let l1 = l @ [zap_Int tr2Field_Nesting (level r)] in
      if includeTRel then l1 @ [zap_Duration tr2Field_TRel (now e - tStart r)] else l1)"

definition with_fields :: "fieldList \<Rightarrow> fieldList \<Rightarrow> fieldList" where
  "with_fields l f = l @ f"

definition sharedFields :: "env \<Rightarrow> store \<Rightarrow> addr \<Rightarrow> store \<times> addr \<times> fieldList" where
  "sharedFields e h ctx =
     (let (h', ctx', sid) = getOrSetContextValue_UUID h ctx sidId (uuid_New e);
          fs = [zap_String tr2Field_Sid sid, zap_String tr2Field_Thread ''main''];
          fs' = (case runtime_Caller e of
                   Some (fileName, lineNum) \<Rightarrow>
                     fs @ [zap_String tr2Field_File (filepath_Base e fileName),
                           zap_Int tr2Field_Line lineNum]
                 | None \<Rightarrow> fs)
      in (h', ctx', fs'))"

subsection \<open>Error and Errorf\<close>

fun error_string :: "goerror \<Rightarrow> string" where
  "error_string (Err m) = m"
| "error_string ErrNil = []"

text \<open>
  \<^verbatim>\<open>err.Error()\<close> on the nil interface value is a nil dereference; \<open>error_string\<close> is
  only read on a value that is not nil.
\<close>

definition Error :: "env \<Rightarrow> world \<Rightarrow> addr \<Rightarrow> goerror \<Rightarrow> panic + (world \<times> goerror)" where
  "Error e w ctx err =
     (if \<not> is_loggedError err then
        (let (h', _, sf) = sharedFields e (heap w) ctx in
         if err = ErrNil then Inl NilDereference
         else Inr (logger_Log ErrorLevel e tr2Event_Error
                     (with_fields sf [zap_String tr2Field_Msg (error_string err),
                                      zap_String tr2Field_Fmt (error_string err)])
                     (w\<lparr>heap := h'\<rparr>),
                   loggedError err))
      else Inr (w, loggedError err))"

definition fmt_Errorf :: "env \<Rightarrow> string \<Rightarrow> goany list \<Rightarrow> goerror" where
  "fmt_Errorf e format a = Err (fmt_Sprintf e format a)"

definition Errorf :: "env \<Rightarrow> world \<Rightarrow> addr \<Rightarrow> string \<Rightarrow> goany list \<Rightarrow> world \<times> goerror" where
  "Errorf e w ctx format a =
     (let isLogged = list_ex any_is_loggedError a;
          err = loggedError (fmt_Errorf e format a)
      in if isLogged then
           (let (h', _, sf) = sharedFields e (heap w) ctx in
            (logger_Log InfoLevel e tr2Event_Error
               (with_fields sf [zap_String tr2Field_Msg (error_string err),
                                zap_String tr2Field_Fmt format])
               (w\<lparr>heap := h'\<rparr>),
             err))
         else (w, err))"

subsection \<open>Start, command name and exit\<close>

definition logStart :: "env \<Rightarrow> world \<Rightarrow> addr \<Rightarrow> world \<times> addr" where
  "logStart e w ctx =
     (let (h', ctx', sf) = sharedFields e (heap w) ctx in
      (logger_Log InfoLevel e tr2Event_Start
         (with_fields (withTime e sf) [zap_Strings tr2Field_Argv (os_Args e)])
         (w\<lparr>heap := h'\<rparr>),
       ctx'))"

text \<open>
  \<^verbatim>\<open>logExit\<close> reads the clock once for each of its two entries; the model gives both
  the one reading of the call. The flush of the logger at the end has no effect on the
  entries.
\<close>

definition logExit :: "env \<Rightarrow> world \<Rightarrow> addr \<Rightarrow> int \<Rightarrow> world" where
  "logExit e w ctx exitCode =
     (let (h', _, sf) = sharedFields e (heap w) ctx;
          fs = with_fields sf [zap_Int tr2Field_Code exitCode];
          w1 = logger_Log InfoLevel e tr2Event_Exit (withTime e fs) (w\<lparr>heap := h'\<rparr>)
      in logger_Log InfoLevel e tr2Event_AtExit (withTime e fs) w1)"

definition LogCommand :: "env \<Rightarrow> world \<Rightarrow> addr \<Rightarrow> string \<Rightarrow> world \<times> addr" where
  "LogCommand e w ctx commandName =
     (let (h', ctx', sf) = sharedFields e (heap w) ctx in
      (logger_Log InfoLevel e tr2Event_CmdName
         (with_fields sf [zap_String tr2Field_Name commandName])
         (w\<lparr>heap := h'\<rparr>),
       ctx'))"

subsection \<open>Regions\<close>

text \<open>
  \<^verbatim>\<open>Region\<close> returns the derived context and the closure that leaves the region. The
  closure keeps the fields and the region value of the entry; it reads the clock when it
  is called, so it takes the environment of that later call.
\<close>

definition Region ::
  "env \<Rightarrow> world \<Rightarrow> addr \<Rightarrow> string \<Rightarrow> string \<Rightarrow> world \<times> addr \<times> (env \<Rightarrow> world \<Rightarrow> world)" where
  "Region e w ctx category label =
     (let (h1, ctx1, sf0) = sharedFields e (heap w) ctx;
          sf = withTime e sf0;
          (hasParentRegion, nesting0) = getContextValue_Region h1 ctx1 parentRegionId;
          nesting = (if \<not> hasParentRegion then \<lparr>level = 0, tStart = now e\<rparr>
                     else nesting0\<lparr>level := level nesting0 + 1, tStart := now e\<rparr>);
          (h2, ctx2) = context_WithValue h1 ctx1 parentRegionId (RegionVal nesting);
          regionFields = [zap_String tr2Field_Category category,
                          zap_String tr2Field_Label label];
          w2 = logger_Log DebugLevel e tr2Event_RegionEnter
                 (with_fields (withNesting e sf nesting False) regionFields)
                 (w\<lparr>heap := h2\<rparr>)
      in (w2, ctx2,
          (\<lambda>e' w'. logger_Log DebugLevel e' tr2Event_RegionLeave
                      (with_fields (withNesting e' sf nesting True) regionFields) w')))"

subsection \<open>Child processes\<close>

text \<open>
  The part of \<^verbatim>\<open>*exec.Cmd\<close> that the recorder reads: the arguments, the process
  handle (nil until the child was started; otherwise its pid) and the process state (nil
  until the child was waited for; otherwise pid and exit code). The callbacks hold the
  pointer and read the command when they are called, so they take its state at that time.
\<close>

record exec_Cmd =
  Args :: "string list"
  Process :: "int option"
  ProcessState :: "(int \<times> int) option"

definition ChildProcess ::
  "env \<Rightarrow> world \<Rightarrow> addr \<Rightarrow> exec_Cmd \<Rightarrow>
     world \<times> (exec_Cmd \<Rightarrow> goerror \<Rightarrow> env \<Rightarrow> world \<Rightarrow> panic + world)
           \<times> (exec_Cmd \<Rightarrow> env \<Rightarrow> world \<Rightarrow> panic + world)" where
  "ChildProcess e w ctx cmd =
     (let (h1, _, sf) = sharedFields e (heap w) ctx;
          childId = lastChildId w + 1;
          w1 = logger_Log DebugLevel e tr2Event_ChildStart
                 (with_fields sf
                    [zap_Int32 tr2Field_ChildId childId,
                     zap_String tr2Field_ChildClass ''?'',
                     zap_Bool tr2Field_UseShell False,
                     zap_Strings tr2Field_Argv (Args cmd)])
                 (w\<lparr>heap := h1, lastChildId := childId\<rparr>);
          startTime = now e;
          childReady = (\<lambda>cmd' execError e' w'.
             (let ready = (if execError \<noteq> ErrNil then zap_String tr2Field_Ready ''error''
                           else zap_String tr2Field_Ready ''ready'')
              in case Process cmd' of
                   None \<Rightarrow> Inl NilDereference
                 | Some pid \<Rightarrow>
                     Inr (logger_Log DebugLevel e' tr2Event_ChildReady
                            (with_fields sf
                               [zap_Int32 tr2Field_ChildId childId,
                                zap_Int tr2Field_Pid pid,
                                ready,
                                zap_Strings tr2Field_Argv (Args cmd')])
                            w')));
          childExit = (\<lambda>cmd' e' w'.
             (case ProcessState cmd' of
                None \<Rightarrow> Inl NilDereference
              | Some (pid, code) \<Rightarrow>
                  Inr (logger_Log DebugLevel e' tr2Event_ChildExit
                         (with_fields sf
                            [zap_Int32 tr2Field_ChildId childId,
                             zap_Int tr2Field_Pid pid,
                             zap_Int tr2Field_Code code,
                             zap_Duration tr2Field_TRel (now e' - startTime)])
                         w')))
      in (w1, childReady, childExit))"

section \<open>The performance-table encoder\<close>

subsection \<open>Formatting\<close>

text \<open>
  What a \<^verbatim>\<open>MapObjectEncoder\<close> holds under a key is a Go value of dynamic type:
  \<^verbatim>\<open>string\<close>, \<^verbatim>\<open>int\<close>, \<^verbatim>\<open>int64\<close>, \<^verbatim>\<open>int32\<close>, \<^verbatim>\<open>bool\<close>,
  \<^verbatim>\<open>time.Duration\<close> or a slice \<^verbatim>\<open>[]interface{}\<close>.
\<close>

datatype goval =
    VString string
  | VInt int
  | VInt64 int
  | VInt32 int
  | VBool bool
  | VDuration int
  | VSlice "goval list"

text \<open>
  \<^verbatim>\<open>Field.AddTo\<close>: a field of \<^verbatim>\<open>Int64Type\<close> is stored with \<^verbatim>\<open>AddInt64\<close>, a string
  array with \<^verbatim>\<open>AddArray\<close>; a later field replaces an earlier one of the same key.
\<close>

fun field_value :: "fieldval \<Rightarrow> goval" where
  "field_value (StringV s) = VString s"
| "field_value (Int64V i) = VInt64 i"
| "field_value (Int32V i) = VInt32 i"
| "field_value (BoolV b) = VBool b"
| "field_value (DurationV d) = VDuration d"
| "field_value (StringsV ss) = VSlice (map VString ss)"

text \<open>
  The formatting done by Go's libraries whose result no property below depends on is a
  parameter: the clock time of an entry, seconds with six decimals, a directive such as
  \<^verbatim>\<open>%-24s\<close> applied to a value of a type that is not the one it is written for, and
  \<^verbatim>\<open>json.Marshal\<close> (\<open>None\<close> when it fails).
\<close>

record fmtenv =
  time_Format :: "int \<Rightarrow> string"
  fmt_seconds :: "int \<Rightarrow> string"
  fmt_other :: "string \<Rightarrow> goval \<Rightarrow> string"
  json_Marshal :: "goval \<Rightarrow> string option"

fun show_nat :: "nat \<Rightarrow> string" where
  "show_nat n =
     (if n < 10 then [''0123456789'' ! n]
      else show_nat (n div 10) @ [''0123456789'' ! (n mod 10)])"

declare show_nat.simps [simp del]

definition show_int :: "int \<Rightarrow> string" where
  "show_int i = (if i < 0 then CHR ''-'' # show_nat (nat (- i)) else show_nat (nat i))"

definition fmt_s :: "fmtenv \<Rightarrow> goval \<Rightarrow> string" where
  "fmt_s fe v = (case v of VString s \<Rightarrow> s | _ \<Rightarrow> fmt_other fe ''%s'' v)"

definition fmt_d :: "fmtenv \<Rightarrow> goval \<Rightarrow> string" where
  "fmt_d fe v =
     (case v of
        VInt i \<Rightarrow> show_int i
      | VInt64 i \<Rightarrow> show_int i
      | VInt32 i \<Rightarrow> show_int i
      | VDuration i \<Rightarrow> show_int i
      | _ \<Rightarrow> fmt_other fe ''%d'' v)"

text \<open>
  Width and precision of \<^verbatim>\<open>%s\<close> count runes; a string is its UTF-8 bytes, of which
  those from 128 to 191 continue a rune.
\<close>

definition is_cont :: "char \<Rightarrow> bool" where
  "is_cont c = (128 \<le> (of_char c :: nat) \<and> (of_char c :: nat) < 192)"

definition rune_count :: "string \<Rightarrow> nat" where
  "rune_count s = length (filter (\<lambda>c. \<not> is_cont c) s)"

fun take_runes :: "nat \<Rightarrow> string \<Rightarrow> string" where
  "take_runes n [] = []"
| "take_runes n (c # cs) =
     (if is_cont c then c # take_runes n cs
      else (case n of 0 \<Rightarrow> [] | Suc m \<Rightarrow> c # take_runes m cs))"

definition pad_right :: "nat \<Rightarrow> string \<Rightarrow> string" where
  "pad_right width s = s @ replicate (width - rune_count s) CHR '' ''"

definition pad_left :: "nat \<Rightarrow> string \<Rightarrow> string" where
  "pad_left width s = replicate (width - rune_count s) CHR '' '' @ s"

text \<open>The directives \<^verbatim>\<open>%-*s\<close> and \<^verbatim>\<open>%-*.*s\<close> applied to a value of type \<^verbatim>\<open>any\<close>.\<close>

definition fmt_s_left :: "fmtenv \<Rightarrow> nat \<Rightarrow> goval \<Rightarrow> string" where
  "fmt_s_left fe width v =
     (case v of
        VString s \<Rightarrow> pad_right width s
      | _ \<Rightarrow> fmt_other fe (''%-'' @ show_nat width @ ''s'') v)"

definition fmt_s_left_prec :: "fmtenv \<Rightarrow> nat \<Rightarrow> nat \<Rightarrow> goval \<Rightarrow> string" where
  "fmt_s_left_prec fe width prec v =
     (case v of
        VString s \<Rightarrow> pad_right width (take_runes prec s)
      | _ \<Rightarrow> fmt_other fe (''%-'' @ show_nat width @ ''.'' @ show_nat prec @ ''s'') v)"

subsection \<open>The encoder of \<^verbatim>\<open>tr2-perf-encoder.go\<close>\<close>

definition tr2Enc_Perf_FileLineWidth :: nat where "tr2Enc_Perf_FileLineWidth = 28"
definition tr2Enc_Perf_ThreadWidth :: nat where "tr2Enc_Perf_ThreadWidth = 24"
definition tr2Enc_Perf_EventWidth :: nat where "tr2Enc_Perf_EventWidth = 12"
definition tr2Enc_Perf_CategoryWidth :: nat where "tr2Enc_Perf_CategoryWidth = 12"

datatype encerr =
    MissingRequiredField string
  | CouldNotFormatArgv string
  | CouldNotFindLogField string
  | EncPanic panic

text \<open>The message of an error that the encoder returns; a panic returns nothing.\<close>

definition encerr_message :: "encerr \<Rightarrow> string option" where
  "encerr_message x =
     (case x of
        MissingRequiredField f \<Rightarrow>
          Some (''missing required field '' @ [CHR 0x27] @ f @ [CHR 0x27])
      | CouldNotFormatArgv f \<Rightarrow>
          Some (''could not format argument array '' @ [CHR 0x27] @ f @ [CHR 0x27])
      | CouldNotFindLogField f \<Rightarrow>
          Some (''could not find log field '' @ [CHR 0x27] @ f @ [CHR 0x27])
      | EncPanic p \<Rightarrow> None)"

record tr2PerfEncoder =
  Fields :: "string \<rightharpoonup> goval"
  isBrief :: bool

definition NewTr2PerfEncoder :: "bool \<Rightarrow> tr2PerfEncoder" where
  "NewTr2PerfEncoder b = \<lparr>Fields = Map.empty, isBrief = b\<rparr>"

definition Clone :: "tr2PerfEncoder \<Rightarrow> tr2PerfEncoder" where
  "Clone t = \<lparr>Fields = Map.empty, isBrief = isBrief t\<rparr>"

definition AddTo :: "field \<Rightarrow> tr2PerfEncoder \<Rightarrow> tr2PerfEncoder" where
  "AddTo f t = t\<lparr>Fields := (Fields t)(fst f \<mapsto> field_value (snd f))\<rparr>"

definition getField :: "tr2PerfEncoder \<Rightarrow> string \<Rightarrow> goval option" where
  "getField t fieldName = Fields t fieldName"

definition getRequiredField :: "tr2PerfEncoder \<Rightarrow> string \<Rightarrow> encerr + goval" where
  "getRequiredField t fieldName =
     (case getField t fieldName of
        None \<Rightarrow> Inl (MissingRequiredField fieldName)
      | Some val \<Rightarrow> Inr val)"

text \<open>The type assertions \<^verbatim>\<open>val.(string)\<close>, \<^verbatim>\<open>val.(time.Duration)\<close>, \<^verbatim>\<open>val.(int)\<close>.\<close>

definition assert_string :: "goval \<Rightarrow> encerr + string" where
  "assert_string v =
     (case v of VString s \<Rightarrow> Inr s | _ \<Rightarrow> Inl (EncPanic (TypeAssertion ''string'')))"

definition assert_Duration :: "goval \<Rightarrow> encerr + int" where
  "assert_Duration v =
     (case v of VDuration d \<Rightarrow> Inr d | _ \<Rightarrow> Inl (EncPanic (TypeAssertion ''time.Duration'')))"

definition assert_int :: "goval \<Rightarrow> encerr + int" where
  "assert_int v =
     (case v of VInt i \<Rightarrow> Inr i | _ \<Rightarrow> Inl (EncPanic (TypeAssertion ''int'')))"

text \<open>\<^verbatim>\<open>strings.Repeat\<close> panics on a negative count.\<close>

definition strings_Repeat :: "string \<Rightarrow> int \<Rightarrow> encerr + string" where
  "strings_Repeat s n =
     (if n < 0 then Inl (EncPanic NegativeRepeat) else Inr (concat (replicate (nat n) s)))"

definition bindE :: "'e + 'a \<Rightarrow> ('a \<Rightarrow> 'e + 'b) \<Rightarrow> 'e + 'b" where
  "bindE x f = (case x of Inl err \<Rightarrow> Inl err | Inr v \<Rightarrow> f v)"

definition getEventLog :: "fmtenv \<Rightarrow> tr2PerfEncoder \<Rightarrow> string \<Rightarrow> encerr + string" where
  "getEventLog fe t event =
     (if event = tr2Event_CmdName then
        bindE (getRequiredField t tr2Field_Name) assert_string
      else if event = tr2Event_Error then
        (case getField t tr2Field_Msg of
           None \<Rightarrow> Inr []
         | Some val \<Rightarrow> assert_string val)
      else if event = tr2Event_ChildStart then
        bindE (getRequiredField t tr2Field_ChildId) (\<lambda>childId.
        bindE (getRequiredField t tr2Field_ChildClass) (\<lambda>childClass.
        bindE (getRequiredField t tr2Field_Argv) (\<lambda>argv.
          (case json_Marshal fe argv of
             None \<Rightarrow> Inl (CouldNotFormatArgv tr2Field_Argv)
           | Some argvBuf \<Rightarrow>
               Inr (''[ch'' @ fmt_d fe childId @ ''] class:'' @ fmt_s fe childClass
                    @ '' argv:'' @ argvBuf)))))
      else if event = tr2Event_ChildReady then
        bindE (getRequiredField t tr2Field_ChildId) (\<lambda>childId.
        bindE (getRequiredField t tr2Field_Pid) (\<lambda>pid.
        bindE (getRequiredField t tr2Field_Ready) (\<lambda>ready.
          Inr (''[ch'' @ fmt_d fe childId @ ''] pid:'' @ fmt_d fe pid
               @ '' ready:'' @ fmt_s fe ready))))
      else if event = tr2Event_ChildExit then
        bindE (getRequiredField t tr2Field_ChildId) (\<lambda>childId.
        bindE (getRequiredField t tr2Field_Pid) (\<lambda>pid.
        bindE (getRequiredField t tr2Field_Code) (\<lambda>code.
          Inr (''[ch'' @ fmt_d fe childId @ ''] pid:'' @ fmt_d fe pid
               @ '' code:'' @ fmt_d fe code))))
      else if event = tr2Event_RegionEnter \<or> event = tr2Event_RegionLeave then
        (case getField t tr2Field_Label of
           None \<Rightarrow> Inr []
         | Some val \<Rightarrow> Inr (''label:'' @ fmt_s fe val))
      else if event = tr2Event_Exit \<or> event = tr2Event_AtExit then
        bindE (getRequiredField t tr2Field_Code) (\<lambda>val. Inr (''code:'' @ fmt_d fe val))
      else Inr [])"

text \<open>
  The file and line column, as both versions of \<^verbatim>\<open>EncodeEntry\<close> compute it from the
  string \<open>fl\<close>: the test and the slice count bytes.
\<close>

definition fileLineColumn :: "nat \<Rightarrow> string \<Rightarrow> string" where
  "fileLineColumn width fl0 =
     (let fl = (if length fl0 > width then take (length fl0 - 3) fl0 @ ''...'' else fl0)
      in pad_right width fl @ '' | '')"

definition elapsedColumn :: "fmtenv \<Rightarrow> goval option \<Rightarrow> encerr + string" where
  "elapsedColumn fe x =
     (case x of
        None \<Rightarrow> Inr (pad_left 9 '' '' @ '' | '')
      | Some val \<Rightarrow> bindE (assert_Duration val) (\<lambda>d. Inr (fmt_seconds fe d @ '' | '')))"

text \<open>
  \<^verbatim>\<open>EncodeEntry\<close> first adds the fields of the entry to the encoder itself, which
  keeps them afterwards; it returns the encoder with the buffer or the error.
\<close>

definition EncodeEntry ::
  "fmtenv \<Rightarrow> tr2PerfEncoder \<Rightarrow> entry \<Rightarrow> fieldList \<Rightarrow> tr2PerfEncoder \<times> (encerr + string)" where
  "EncodeEntry fe t0 ent fs =
     (let event = Message ent;
          t = foldl (\<lambda>t f. AddTo f t) t0 fs
      in (t,
          bindE (if \<not> isBrief t then
                   bindE (getRequiredField t tr2Field_File) (\<lambda>file.
                   bindE (getRequiredField t tr2Field_Line) (\<lambda>line.
                     Inr (time_Format fe (Time ent) @ '' ''
                          @ fileLineColumn tr2Enc_Perf_FileLineWidth
                              (fmt_s fe file @ '':'' @ fmt_d fe line))))
                 else Inr []) (\<lambda>b1.
          bindE (getRequiredField t tr2Field_Thread) (\<lambda>val.
          let b2 = b1 @ ''d0 | '' @ fmt_s_left fe tr2Enc_Perf_ThreadWidth val @ '' | '';
              b3 = b2 @ pad_right tr2Enc_Perf_EventWidth event @ '' | '' @ ''    | ''
          in
          bindE (elapsedColumn fe (getField t tr2Field_TAbs)) (\<lambda>tabs.
          bindE (elapsedColumn fe (getField t tr2Field_TRel)) (\<lambda>trel.
          let val = (case getField t tr2Field_Category of None \<Rightarrow> VString [] | Some v \<Rightarrow> v);
              b4 = b3 @ tabs @ trel
                   @ fmt_s_left_prec fe tr2Enc_Perf_CategoryWidth tr2Enc_Perf_CategoryWidth val
                   @ '' | ''
          in
          bindE (case getField t tr2Field_Nesting of
                   None \<Rightarrow> Inr []
                 | Some val \<Rightarrow> bindE (assert_int val) (strings_Repeat ''.'')) (\<lambda>dots.
          bindE (getEventLog fe t event) (\<lambda>logMsg.
            Inr (b4 @ dots @ logMsg @ [CHR 0x0A])))))))))"

subsection \<open>The earlier encoder, built from an encoder configuration\<close>

text \<open>
  This version of \<^verbatim>\<open>EncodeEntry\<close> searches the field list of the entry; it reads the
  members \<^verbatim>\<open>String\<close> and \<^verbatim>\<open>Integer\<close> of the field it finds, whatever its type.
\<close>

fun field_String :: "fieldval \<Rightarrow> string" where
  "field_String (StringV s) = s"
| "field_String v = []"

fun field_Integer :: "fieldval \<Rightarrow> int" where
  "field_Integer (Int64V i) = i"
| "field_Integer (Int32V i) = i"
| "field_Integer (DurationV d) = d"
| "field_Integer (BoolV b) = (if b then 1 else 0)"
| "field_Integer v = 0"

fun getField_list :: "string \<Rightarrow> fieldList \<Rightarrow> encerr + fieldval" where
  "getField_list key [] = Inl (CouldNotFindLogField key)"
| "getField_list key (f # fs) = (if fst f = key then Inr (snd f) else getField_list key fs)"

definition elapsedColumn_cfg :: "fmtenv \<Rightarrow> encerr + fieldval \<Rightarrow> string" where
  "elapsedColumn_cfg fe x =
     (case x of
        Inl err \<Rightarrow> pad_left 9 '' '' @ '' | ''
      | Inr v \<Rightarrow> fmt_seconds fe (field_Integer v) @ '' | '')"

definition EncodeEntry_cfg :: "fmtenv \<Rightarrow> entry \<Rightarrow> fieldList \<Rightarrow> encerr + string" where
  "EncodeEntry_cfg fe ent fs =
     (let b0 = time_Format fe (Time ent) @ '' '' in
      bindE (getField_list ''file'' fs) (\<lambda>file.
      bindE (getField_list ''line'' fs) (\<lambda>line.
      let fl = field_String file @ '':'' @ show_int (field_Integer line);
          b1 = b0 @ fileLineColumn tr2Enc_Perf_FileLineWidth fl @ ''d0 | ''
      in
      bindE (getField_list ''thread'' fs) (\<lambda>thread.
      let b2 = b1 @ pad_right tr2Enc_Perf_ThreadWidth (field_String thread) @ '' | ''
                  @ pad_right tr2Enc_Perf_EventWidth (Message ent) @ '' | '' @ ''    | ''
                  @ elapsedColumn_cfg fe (getField_list ''t_abs'' fs)
                  @ elapsedColumn_cfg fe (getField_list ''t_rel'' fs);
          category = (case getField_list ''category'' fs of Inl err \<Rightarrow> [] | Inr v \<Rightarrow> field_String v);
          b3 = b2 @ pad_right tr2Enc_Perf_CategoryWidth
                      (take_runes tr2Enc_Perf_CategoryWidth category) @ '' | ''
      in
      bindE (case getField_list ''nesting'' fs of
               Inl err \<Rightarrow> Inr []
             | Inr v \<Rightarrow> strings_Repeat ''.'' (field_Integer v)) (\<lambda>dots.
      let label = (case getField_list ''label'' fs of
                     Inl err \<Rightarrow> [] | Inr v \<Rightarrow> ''label:'' @ field_String v);
          code = (case getField_list ''code'' fs of
                    Inl err \<Rightarrow> [] | Inr v \<Rightarrow> ''code:'' @ show_int (field_Integer v))
      in Inr (b3 @ dots @ label @ code @ [CHR 0x0A]))))))"

subsection \<open>The core of the event channel\<close>

text \<open>
  \<^verbatim>\<open>createTrace2EventCore\<close> builds the JSON encoder of zap and then assigns the
  performance-table encoder to the same variable; the core is made with the value the
  variable holds at that point. \<^verbatim>\<open>createTrace2ZapLogger\<close> tees this one core.
  The JSON encoder belongs to zap: its rendering is a parameter, and it returns no error.
\<close>

datatype encoder = JSONEncoder | Tr2PerfEncoder

definition createTrace2EventCore :: encoder where
  "createTrace2EventCore =
     (let encoder = JSONEncoder;
          encoder = Tr2PerfEncoder
      in encoder)"

definition createTrace2ZapLogger :: "encoder list" where
  "createTrace2ZapLogger = [createTrace2EventCore]"

definition core_EncodeEntry ::
  "(entry \<Rightarrow> fieldList \<Rightarrow> string) \<Rightarrow> fmtenv \<Rightarrow> encoder \<Rightarrow> entry \<Rightarrow> fieldList \<Rightarrow> encerr + string" where
  "core_EncodeEntry json fe enc ent fs =
     (case enc of
        JSONEncoder \<Rightarrow> Inr (json ent fs)
      | Tr2PerfEncoder \<Rightarrow> EncodeEntry_cfg fe ent fs)"

text \<open>
  \<^verbatim>\<open>ioCore.Write\<close>: the buffer of the encoder is written to the sink; when the encoder
  fails, its error is returned and the sink is left as it was.
\<close>

definition core_Write ::
  "(entry \<Rightarrow> fieldList \<Rightarrow> string) \<Rightarrow> fmtenv \<Rightarrow> encoder \<Rightarrow> string \<Rightarrow> entry \<Rightarrow> fieldList
     \<Rightarrow> string \<times> encerr option" where
  "core_Write json fe enc sink ent fs =
     (case core_EncodeEntry json fe enc ent fs of
        Inl err \<Rightarrow> (sink, Some err)
      | Inr buf \<Rightarrow> (sink @ buf, None))"

section \<open>Observations on the log\<close>


subsection \<open>Runs of the recorder\<close>

text \<open>
  The worlds that a recorder made by \<^verbatim>\<open>NewTrace2\<close> can be in: callers create
  contexts of their own (background contexts and contexts derived by other packages, which
  carry none of the two keys of this package) and call the operations of the recorder and
  the closures these returned, in any order and with any arguments.
\<close>

inductive reachable :: "world \<Rightarrow> bool" where
  r_new: "reachable NewTrace2"
| r_background: "reachable w \<Longrightarrow> reachable (w\<lparr>heap := heap w @ [emptyCtx]\<rparr>)"
| r_other: "reachable w \<Longrightarrow> p < length (heap w) \<Longrightarrow> reachable (w\<lparr>heap := heap w @ [otherCtx p]\<rparr>)"
| r_logStart: "reachable w \<Longrightarrow> reachable (fst (logStart e w ctx))"
| r_logExit: "reachable w \<Longrightarrow> reachable (logExit e w ctx code)"
| r_LogCommand: "reachable w \<Longrightarrow> reachable (fst (LogCommand e w ctx name))"
| r_Region: "reachable w \<Longrightarrow> reachable (fst (Region e w ctx category label))"
| r_leave: "reachable w \<Longrightarrow> reachable (snd (snd (Region e w0 ctx category label)) e' w)"
| r_ChildProcess: "reachable w \<Longrightarrow> reachable (fst (ChildProcess e w ctx cmd))"
| r_ready: "reachable w \<Longrightarrow>
     fst (snd (ChildProcess e w0 ctx cmd)) cmd' err e' w = Inr w' \<Longrightarrow> reachable w'"
| r_exit: "reachable w \<Longrightarrow>
     snd (snd (ChildProcess e w0 ctx cmd)) cmd' e' w = Inr w' \<Longrightarrow> reachable w'"
| r_Error: "reachable w \<Longrightarrow> Error e w ctx err = Inr (w', err') \<Longrightarrow> reachable w'"
| r_Errorf: "reachable w \<Longrightarrow> reachable (fst (Errorf e w ctx format a))"

text \<open>A run of calls of \<^verbatim>\<open>ChildProcess\<close>, one after the other.\<close>

fun spawn_all :: "world \<Rightarrow> (env \<times> addr \<times> exec_Cmd) list \<Rightarrow> world" where
  "spawn_all w [] = w"
| "spawn_all w ((e, ctx, cmd) # calls) = spawn_all (fst (ChildProcess e w ctx cmd)) calls"

text \<open>
  The child ids a log shows: the \<^verbatim>\<open>child_id\<close> of each "child_start" entry, oldest
  first.
\<close>

definition child_ids :: "(entry \<times> fieldList) list \<Rightarrow> int list" where
  "child_ids l =
     List.map_filter
       (\<lambda>(ent, fs). if Message ent = tr2Event_ChildStart
                     then (case map_of fs tr2Field_ChildId of
                             Some (Int32V i) \<Rightarrow> Some i
                           | _ \<Rightarrow> None)
                     else None) l"

text \<open>Every region value in the store has a level that is not negative.\<close>

definition levels_nonneg :: "store \<Rightarrow> bool" where
  "levels_nonneg h =
     list_all (\<lambda>n. case n of valueCtx p k (RegionVal r) \<Rightarrow> 0 \<le> level r | _ \<Rightarrow> True) h"

text \<open>
  The region value that \<^verbatim>\<open>Region\<close> computes for a context: one level deeper than
  the region found through the context, or level 0 when none is found.
\<close>

definition entered :: "env \<Rightarrow> store \<Rightarrow> addr \<Rightarrow> trace2Region" where
  "entered e h ctx =
     (case ctx_Value h ctx parentRegionId of
        Some (RegionVal r) \<Rightarrow> r\<lparr>level := level r + 1, tStart := now e\<rparr>
      | _ \<Rightarrow> \<lparr>level = 0, tStart = now e\<rparr>)"

text \<open>Two worlds show the same child ids and hold the same counter.\<close>

definition same_ids :: "world \<Rightarrow> world \<Rightarrow> bool" where
  "same_ids w w' = (child_ids (log w') = child_ids (log w) \<and> lastChildId w' = lastChildId w)"

text \<open>
  The ids shown so far are the counter values \<open>0, 1, \<dots>\<close> read as \<^verbatim>\<open>int32\<close>, and
  the counter holds the last of them.
\<close>

definition ids_inv :: "world \<Rightarrow> bool" where
  "ids_inv w =
     (child_ids (log w) =
        map (\<lambda>i. sint (word_of_nat i :: 32 word)) [0..<length (child_ids (log w))] \<and>
      lastChildId w = word_of_nat (length (child_ids (log w))) - 1)"

subsection \<open>Required fields and failures of the encoder\<close>

text \<open>
  The fields that \<^verbatim>\<open>getEventLog\<close> asks for with \<^verbatim>\<open>getRequiredField\<close>, by event.
  There is no case for "start": it falls to the default case, which asks for none.
\<close>

definition required_fields :: "string \<Rightarrow> string list" where
  "required_fields event =
     (if event = tr2Event_CmdName then [tr2Field_Name]
      else if event = tr2Event_ChildStart then
        [tr2Field_ChildId, tr2Field_ChildClass, tr2Field_Argv]
      else if event = tr2Event_ChildReady then [tr2Field_ChildId, tr2Field_Pid, tr2Field_Ready]
      else if event = tr2Event_ChildExit then [tr2Field_ChildId, tr2Field_Pid, tr2Field_Code]
      else if event = tr2Event_Exit \<or> event = tr2Event_AtExit then [tr2Field_Code]
      else [])"

text \<open>
  A result of the encoder is in order for an encoder state when it is a buffer, a
  missing-field error that names a field the state does not hold, or a panic; it is a
  failure when moreover it is not a buffer.
\<close>

definition enc_ok :: "tr2PerfEncoder \<Rightarrow> encerr + 'a \<Rightarrow> bool" where
  "enc_ok t x =
     (case x of
        Inr v \<Rightarrow> True
      | Inl (MissingRequiredField f) \<Rightarrow> Fields t f = None
      | Inl (EncPanic p) \<Rightarrow> True
      | Inl err \<Rightarrow> False)"

definition enc_fails :: "tr2PerfEncoder \<Rightarrow> encerr + 'a \<Rightarrow> bool" where
  "enc_fails t x = (enc_ok t x \<and> (case x of Inr v \<Rightarrow> False | Inl err \<Rightarrow> True))"

subsection \<open>Sample inputs\<close>

definition env0 :: env where
  "env0 = \<lparr>now = 5000, globalStart = 1000,
            runtime_Caller = Some (''/src/cmd/git-bundle-server/init.go'', 42),
            filepath_Base = (\<lambda>path. ''init.go''),
            uuid_New = ''0b7c1a52-5e0f-4c5e-9d0a-3f2a6c1d9e77'',
            os_Args = [''git-bundle-server'', ''init''],
            fmt_Sprintf = (\<lambda>format a. format)\<rparr>"

definition cmd0 :: exec_Cmd where
  "cmd0 = \<lparr>Args = [''git'', ''bundle'', ''create''], Process = None, ProcessState = None\<rparr>"

definition region1 :: "world \<times> addr \<times> (env \<Rightarrow> world \<Rightarrow> world)" where
  "region1 = Region env0 NewTrace2 0 ''bundle'' ''init''"

definition region2 :: "world \<times> addr \<times> (env \<Rightarrow> world \<Rightarrow> world)" where
  "region2 = Region env0 (fst region1) (fst (snd region1)) ''bundle'' ''clone''"

definition fe0 :: fmtenv where
  "fe0 = \<lparr>time_Format = (\<lambda>t. ''12:00:00.000000''),
           fmt_seconds = (\<lambda>d. '' 0.000000''),
           fmt_other = (\<lambda>d v. ''%!''),
           json_Marshal = (\<lambda>v. Some ''[]'')\<rparr>"

section \<open>Properties of the recorder\<close>

subsection \<open>Basic facts\<close>

lemma log_logger_Log:
  "log (logger_Log lvl e msg fs w) =
     log w @ [(\<lparr>Level = lvl, Time = now e, Message = msg\<rparr>, fs)]"
  by (simp add: logger_Log_def)

lemma heap_logger_Log: "heap (logger_Log lvl e msg fs w) = heap w"
  by (simp add: logger_Log_def)

lemma lastChildId_logger_Log: "lastChildId (logger_Log lvl e msg fs w) = lastChildId w"
  by (simp add: logger_Log_def)



subsection \<open>Error and Errorf\<close>

lemma Error_not_nil: "Error e w ctx (Err m) = Inr (w, Err m)"
  by (simp add: Error_def is_loggedError_def loggedError_def)

lemma Error_nil: "Error e w ctx ErrNil = Inl NilDereference"
  by (cases "sharedFields e (heap w) ctx") (simp add: Error_def is_loggedError_def)



lemma Errorf_logged_arg:
  "list_ex any_is_loggedError a \<Longrightarrow>
     log (fst (Errorf e w ctx format a)) =
       log w @ [(\<lparr>Level = InfoLevel, Time = now e, Message = tr2Event_Error\<rparr>,
                 with_fields (snd (snd (sharedFields e (heap w) ctx)))
                   [zap_String tr2Field_Msg (fmt_Sprintf e format a),
                    zap_String tr2Field_Fmt format])]"
  by (cases "sharedFields e (heap w) ctx")
     (simp add: Errorf_def Let_def fmt_Errorf_def loggedError_def log_logger_Log)


text \<open>
  C8. \<^verbatim>\<open>Error\<close> on an error that is not nil, whether raw or seen before, returns the
  world and the error as they are: the assertion \<^verbatim>\<open>err.(loggedError)\<close> holds of it,
  so the branch that logs is not taken. Two calls in a row emit no "error" entry, where
  one is expected.
\<close>

theorem Error_twice_emits_nothing:
  "is_loggedError (Err m) \<and>
   Error e1 w c1 (Err m) = Inr (w, Err m) \<and>
   Error e2 w c2 (Err m) = Inr (w, Err m)"
  by (simp add: Error_not_nil is_loggedError_def)




subsection \<open>Contexts and regions\<close>

lemma ctx_Value_append:
  "a < length h \<Longrightarrow> ctx_Value (h @ h') a k = ctx_Value h a k"
proof (induction h a k rule: ctx_Value.induct)
  case (1 h a k)
  show ?case
  proof (cases "h ! a")
    case emptyCtx
    with 1(3) show ?thesis
      by (simp add: ctx_Value.simps [of "h @ h'"] ctx_Value.simps [of h] nth_append)
  next
    case (valueCtx p k' v)
    with 1(1) [OF 1(3) valueCtx] 1(3) show ?thesis
      by (simp add: ctx_Value.simps [of "h @ h'" a] ctx_Value.simps [of h a] nth_append)
  next
    case (otherCtx p)
    with 1(2) [OF 1(3) otherCtx] 1(3) show ?thesis
      by (simp add: ctx_Value.simps [of "h @ h'" a] ctx_Value.simps [of h a] nth_append)
  qed
qed

lemma ctx_Value_out_of_range: "length h \<le> a \<Longrightarrow> ctx_Value h a k = None"
  by (simp add: ctx_Value.simps [of h a])

lemma ctx_Value_new_node:
  "ctx_Value (h @ [valueCtx p k v]) (length h) k' =
     (if k = k' then Some v else ctx_Value h p k')"
  by (cases "p < length h")
     (simp_all add: ctx_Value.simps [of "h @ [valueCtx p k v]" "length h"]
        ctx_Value_append ctx_Value_out_of_range)

lemma ctx_Value_in_heap:
  "ctx_Value h a k = Some v \<Longrightarrow> \<exists>p. valueCtx p k v \<in> set h"
proof (induction h a k rule: ctx_Value.induct)
  case (1 h a k)
  from 1(3) have a: "a < length h"
    by (cases "a < length h") (simp_all add: ctx_Value.simps [of h a])
  show ?case
  proof (cases "h ! a")
    case emptyCtx
    with 1(3) a show ?thesis by (simp add: ctx_Value.simps [of h a])
  next
    case (valueCtx p k' v')
    show ?thesis
    proof (cases "k' = k")
      case True
      with 1(3) a valueCtx have "v' = v" by (simp add: ctx_Value.simps [of h a])
      with True valueCtx a show ?thesis by (metis nth_mem)
    next
      case False
      with 1(3) a valueCtx have "p < a" "ctx_Value h p k = Some v"
        by (simp_all add: ctx_Value.simps [of h a] split: if_splits)
      with 1(1) [OF a valueCtx False] show ?thesis by simp
    qed
  next
    case (otherCtx p)
    with 1(3) a have "p < a" "ctx_Value h p k = Some v"
      by (simp_all add: ctx_Value.simps [of h a] split: if_splits)
    with 1(2) [OF a otherCtx] show ?thesis by simp
  qed
qed

lemma sharedFields_cases:
  "sharedFields e h ctx = (h', ctx', fs) \<Longrightarrow>
     (h' = h \<and> ctx' = ctx) \<or>
     (h' = h @ [valueCtx ctx sidId (SidVal (uuid_New e))] \<and> ctx' = length h)"
  by (auto simp: sharedFields_def getOrSetContextValue_UUID_def context_WithValue_def Let_def
      split: prod.splits if_splits)

lemma sharedFields_region:
  assumes "sharedFields e h ctx = (h', ctx', fs)"
  shows "ctx_Value h' ctx' parentRegionId = ctx_Value h ctx parentRegionId"
proof -
  from sharedFields_cases [OF assms] show ?thesis
  proof
    assume "h' = h \<and> ctx' = ctx" then show ?thesis by simp
  next
    assume "h' = h @ [valueCtx ctx sidId (SidVal (uuid_New e))] \<and> ctx' = length h"
    then show ?thesis by (simp add: ctx_Value_new_node)
  qed
qed

lemma sharedFields_keys:
  assumes "k \<noteq> tr2Field_Sid" "k \<noteq> tr2Field_Thread" "k \<noteq> tr2Field_File" "k \<noteq> tr2Field_Line"
  shows "map_of (snd (snd (sharedFields e h ctx)) @ rest) k = map_of rest k"
  using assms
  by (auto simp: sharedFields_def Let_def zap_String_def zap_Int_def
      split: prod.splits option.splits)

lemma sharedFields_prefix:
  "\<exists>ext. fst (sharedFields e h ctx) = h @ ext"
  using sharedFields_cases [of e h ctx]
  by (cases "sharedFields e h ctx") auto

lemma sharedFields_ctx_valid:
  "ctx < length h \<Longrightarrow>
     fst (snd (sharedFields e h ctx)) < length (fst (sharedFields e h ctx))"
  using sharedFields_cases [of e h ctx]
  by (cases "sharedFields e h ctx") auto

lemma levels_nonneg_append:
  "levels_nonneg (h @ h') = (levels_nonneg h \<and> levels_nonneg h')"
  by (simp add: levels_nonneg_def)

lemma levels_nonneg_region:
  "levels_nonneg h \<Longrightarrow> valueCtx p k (RegionVal r) \<in> set h \<Longrightarrow> 0 \<le> level r"
  by (auto simp: levels_nonneg_def list_all_iff)

lemma levels_nonneg_sharedFields:
  "levels_nonneg h \<Longrightarrow> levels_nonneg (fst (sharedFields e h ctx))"
  using sharedFields_cases [of e h ctx]
  by (cases "sharedFields e h ctx") (auto simp: levels_nonneg_def)

lemma Region_result:
  assumes sf: "sharedFields e (heap w) ctx = (h1, ctx1, sf0)"
  shows "Region e w ctx category label =
    (logger_Log DebugLevel e tr2Event_RegionEnter
       (with_fields (withNesting e (withTime e sf0) (entered e (heap w) ctx) False)
          [zap_String tr2Field_Category category, zap_String tr2Field_Label label])
       (w\<lparr>heap := h1 @ [valueCtx ctx1 parentRegionId (RegionVal (entered e (heap w) ctx))]\<rparr>),
     length h1,
     (\<lambda>e' w'. logger_Log DebugLevel e' tr2Event_RegionLeave
        (with_fields (withNesting e' (withTime e sf0) (entered e (heap w) ctx) True)
           [zap_String tr2Field_Category category, zap_String tr2Field_Label label]) w'))"
proof -
  have "ctx_Value h1 ctx1 parentRegionId = ctx_Value (heap w) ctx parentRegionId"
    using sf by (rule sharedFields_region)
  then show ?thesis
    using sf
    by (auto simp: Region_def Let_def getContextValue_Region_def context_WithValue_def
        entered_def split: option.splits ctxval.splits)
qed

lemma entered_level:
  "level (entered e h ctx) =
     (if fst (getContextValue_Region h ctx parentRegionId)
      then level (snd (getContextValue_Region h ctx parentRegionId)) + 1 else 0)"
  by (simp add: entered_def getContextValue_Region_def split: option.splits ctxval.splits)

lemma entered_nonneg: "levels_nonneg h \<Longrightarrow> 0 \<le> level (entered e h ctx)"
proof (cases "ctx_Value h ctx parentRegionId")
  case None
  then show ?thesis by (simp add: entered_def)
next
  case (Some v)
  assume inv: "levels_nonneg h"
  show ?thesis
  proof (cases v)
    case (SidVal s)
    with Some show ?thesis by (simp add: entered_def)
  next
    case (RegionVal r)
    with Some obtain p where "valueCtx p parentRegionId (RegionVal r) \<in> set h"
      using ctx_Value_in_heap by blast
    with inv have "0 \<le> level r" by (rule levels_nonneg_region)
    with Some RegionVal show ?thesis by (simp add: entered_def)
  qed
qed

lemma heap_Region:
  "heap (fst (Region e w ctx category label)) =
     fst (sharedFields e (heap w) ctx) @
       [valueCtx (fst (snd (sharedFields e (heap w) ctx))) parentRegionId
          (RegionVal (entered e (heap w) ctx))]"
  by (cases "sharedFields e (heap w) ctx") (simp add: Region_result heap_logger_Log)

lemma heap_leave: "heap (snd (snd (Region e w0 ctx category label)) e' w) = heap w"
  by (cases "sharedFields e (heap w0) ctx") (simp add: Region_result heap_logger_Log)

lemma heap_logStart: "heap (fst (logStart e w ctx)) = fst (sharedFields e (heap w) ctx)"
  by (cases "sharedFields e (heap w) ctx") (simp add: logStart_def heap_logger_Log)

lemma heap_logExit: "heap (logExit e w ctx code) = fst (sharedFields e (heap w) ctx)"
  by (cases "sharedFields e (heap w) ctx") (simp add: logExit_def Let_def heap_logger_Log)

lemma heap_LogCommand: "heap (fst (LogCommand e w ctx name)) = fst (sharedFields e (heap w) ctx)"
  by (cases "sharedFields e (heap w) ctx") (simp add: LogCommand_def heap_logger_Log)

lemma ChildProcess_result:
  assumes sf: "sharedFields e (heap w) ctx = (h1, ctx1, sf0)"
  shows "fst (ChildProcess e w ctx cmd) =
     logger_Log DebugLevel e tr2Event_ChildStart
       (with_fields sf0
          [zap_Int32 tr2Field_ChildId (lastChildId w + 1),
           zap_String tr2Field_ChildClass ''?'',
           zap_Bool tr2Field_UseShell False,
           zap_Strings tr2Field_Argv (Args cmd)])
       (w\<lparr>heap := h1, lastChildId := lastChildId w + 1\<rparr>)"
  using sf by (simp add: ChildProcess_def Let_def)

lemma childReady_result:
  assumes sf: "sharedFields e (heap w) ctx = (h1, ctx1, sf0)"
  shows "fst (snd (ChildProcess e w ctx cmd)) cmd' execError e' w' =
     (case Process cmd' of
        None \<Rightarrow> Inl NilDereference
      | Some pid \<Rightarrow>
          Inr (logger_Log DebugLevel e' tr2Event_ChildReady
                 (with_fields sf0
                    [zap_Int32 tr2Field_ChildId (lastChildId w + 1),
                     zap_Int tr2Field_Pid pid,
                     (if execError \<noteq> ErrNil then zap_String tr2Field_Ready ''error''
                      else zap_String tr2Field_Ready ''ready''),
                     zap_Strings tr2Field_Argv (Args cmd')])
                 w'))"
  using sf by (simp add: ChildProcess_def Let_def)

lemma childExit_result:
  assumes sf: "sharedFields e (heap w) ctx = (h1, ctx1, sf0)"
  shows "snd (snd (ChildProcess e w ctx cmd)) cmd' e' w' =
     (case ProcessState cmd' of
        None \<Rightarrow> Inl NilDereference
      | Some (pid, code) \<Rightarrow>
          Inr (logger_Log DebugLevel e' tr2Event_ChildExit
                 (with_fields sf0
                    [zap_Int32 tr2Field_ChildId (lastChildId w + 1),
                     zap_Int tr2Field_Pid pid,
                     zap_Int tr2Field_Code code,
                     zap_Duration tr2Field_TRel (now e' - now e)])
                 w'))"
  using sf by (simp add: ChildProcess_def Let_def)

lemma heap_ChildProcess:
  "heap (fst (ChildProcess e w ctx cmd)) = fst (sharedFields e (heap w) ctx)"
  by (cases "sharedFields e (heap w) ctx") (simp add: ChildProcess_result heap_logger_Log)

lemma heap_childReady:
  "fst (snd (ChildProcess e w0 ctx cmd)) cmd' err e' w = Inr w' \<Longrightarrow> heap w' = heap w"
  by (cases "sharedFields e (heap w0) ctx")
     (auto simp: childReady_result heap_logger_Log split: option.splits)

lemma heap_childExit:
  "snd (snd (ChildProcess e w0 ctx cmd)) cmd' e' w = Inr w' \<Longrightarrow> heap w' = heap w"
  by (cases "sharedFields e (heap w0) ctx")
     (auto simp: childExit_result heap_logger_Log split: option.splits)

lemma heap_Error:
  "Error e w ctx err = Inr (w', err') \<Longrightarrow>
     heap w' = heap w \<or> heap w' = fst (sharedFields e (heap w) ctx)"
  by (cases "sharedFields e (heap w) ctx")
     (auto simp: Error_def heap_logger_Log split: if_splits)

lemma heap_Errorf:
  "heap (fst (Errorf e w ctx format a)) = heap w \<or>
   heap (fst (Errorf e w ctx format a)) = fst (sharedFields e (heap w) ctx)"
  by (cases "sharedFields e (heap w) ctx")
     (auto simp: Errorf_def Let_def heap_logger_Log split: if_splits)

lemma reachable_levels_nonneg: "reachable w \<Longrightarrow> levels_nonneg (heap w)"
proof (induction rule: reachable.induct)
  case r_new
  show ?case by (simp add: NewTrace2_def levels_nonneg_def)
next
  case (r_background w)
  then show ?case by (simp add: levels_nonneg_def)
next
  case (r_other w p)
  then show ?case by (simp add: levels_nonneg_def)
next
  case (r_logStart w e ctx)
  then show ?case by (simp add: heap_logStart levels_nonneg_sharedFields)
next
  case (r_logExit w e ctx code)
  then show ?case by (simp add: heap_logExit levels_nonneg_sharedFields)
next
  case (r_LogCommand w e ctx name)
  then show ?case by (simp add: heap_LogCommand levels_nonneg_sharedFields)
next
  case (r_Region w e ctx category label)
  then have "levels_nonneg (fst (sharedFields e (heap w) ctx))"
    and "0 \<le> level (entered e (heap w) ctx)"
    by (simp_all add: levels_nonneg_sharedFields entered_nonneg)
  then show ?case by (simp add: heap_Region levels_nonneg_def)
next
  case (r_leave w e w0 ctx category label e')
  then show ?case by (simp add: heap_leave)
next
  case (r_ChildProcess w e ctx cmd)
  then show ?case by (simp add: heap_ChildProcess levels_nonneg_sharedFields)
next
  case (r_ready w e w0 ctx cmd cmd' err e' w')
  then show ?case by (simp add: heap_childReady)
next
  case (r_exit w e w0 ctx cmd cmd' e' w')
  then show ?case by (simp add: heap_childExit)
next
  case (r_Error w e ctx err w' err')
  from heap_Error [OF r_Error(2)] r_Error(3) show ?case
    by (auto simp: levels_nonneg_sharedFields)
next
  case (r_Errorf w e ctx format a)
  from heap_Errorf [of e w ctx format a] r_Errorf(2) show ?case
    by (auto simp: levels_nonneg_sharedFields)
qed

lemma Region_enter_log:
  "\<exists>fs. log (fst (Region e w ctx category label)) =
           log w @ [(\<lparr>Level = DebugLevel, Time = now e,
                       Message = tr2Event_RegionEnter\<rparr>, fs)] \<and>
         map_of fs tr2Field_Nesting = Some (Int64V (level (entered e (heap w) ctx)))"
proof -
  obtain h1 ctx1 sf0 where sf: "sharedFields e (heap w) ctx = (h1, ctx1, sf0)"
    by (cases "sharedFields e (heap w) ctx")
  have sf0: "sf0 = snd (snd (sharedFields e (heap w) ctx))" using sf by simp
  have "map_of (sf0 @ [zap_Duration tr2Field_TAbs (now e - globalStart e),
                       zap_Int tr2Field_Nesting (level (entered e (heap w) ctx)),
                       zap_String tr2Field_Category category,
                       zap_String tr2Field_Label label]) tr2Field_Nesting
        = Some (Int64V (level (entered e (heap w) ctx)))"
    unfolding sf0
    by (subst sharedFields_keys)
       (simp_all add: tr2Field_defs zap_Duration_def zap_Int_def)
  then show ?thesis
    by (simp add: Region_result [OF sf] log_logger_Log withNesting_def withTime_def
        with_fields_def Let_def)
qed

lemma Region_new_context:
  "getContextValue_Region (heap (fst (Region e w ctx category label)))
     (fst (snd (Region e w ctx category label))) parentRegionId
   = (True, entered e (heap w) ctx)"
proof -
  obtain h1 ctx1 sf0 where sf: "sharedFields e (heap w) ctx = (h1, ctx1, sf0)"
    by (cases "sharedFields e (heap w) ctx")
  then show ?thesis
    by (simp add: Region_result heap_logger_Log getContextValue_Region_def ctx_Value_new_node)
qed

lemma Region_heap_prefix:
  "\<exists>ext. heap (fst (Region e w ctx category label)) = heap w @ ext \<and>
         fst (snd (Region e w ctx category label)) = length (heap w @ ext) - 1 \<and> ext \<noteq> []"
proof -
  obtain h1 ctx1 sf0 where sf: "sharedFields e (heap w) ctx = (h1, ctx1, sf0)"
    by (cases "sharedFields e (heap w) ctx")
  from sharedFields_prefix [of e "heap w" ctx] sf obtain ext where "h1 = heap w @ ext"
    by auto
  with sf show ?thesis
    by (simp add: Region_result heap_logger_Log)
qed

lemma Region_level_through:
  "level (snd (getContextValue_Region (heap (fst (Region e w ctx category label)))
                 (fst (snd (Region e w ctx category label))) parentRegionId))
     = level (entered e (heap w) ctx)"
  by (simp add: Region_new_context)

lemma region1_level:
  "getContextValue_Region (heap (fst region1)) (fst (snd region1)) parentRegionId
     = (True, \<lparr>level = 0, tStart = 5000\<rparr>)"
  unfolding region1_def Region_new_context
  by (simp add: entered_def NewTrace2_def ctx_Value.simps [of _ 0] env0_def)

text \<open>
  C5. In a world the recorder can be in, \<^verbatim>\<open>Region\<close> called on any context returns a
  context through which a region is found; its level is 0 when no region is found through
  the context of the call, and \<open>N + 1\<close> when the region found there has level \<open>N\<close>; the
  level is never negative. The "region_enter" entry that the call hands to the logger
  carries this level in its field \<^verbatim>\<open>nesting\<close>. (The level is a Go \<^verbatim>\<open>int\<close> of 64
  bits; a context at level \<open>N\<close> is the end of a chain of \<open>N + 1\<close> region contexts, so
  the level is an integer here.)
\<close>

theorem Region_nesting_level:
  assumes "reachable w" and "Region e w ctx category label = (w', ctx', leave)"
  shows "\<exists>r fs.
     getContextValue_Region (heap w') ctx' parentRegionId = (True, r) \<and>
     level r = (if fst (getContextValue_Region (heap w) ctx parentRegionId)
                then level (snd (getContextValue_Region (heap w) ctx parentRegionId)) + 1
                else 0) \<and>
     0 \<le> level r \<and>
     log w' = log w @ [(\<lparr>Level = DebugLevel, Time = now e,
                         Message = tr2Event_RegionEnter\<rparr>, fs)] \<and>
     map_of fs tr2Field_Nesting = Some (Int64V (level r))"
proof -
  let ?r = "entered e (heap w) ctx"
  from assms(2) have w': "w' = fst (Region e w ctx category label)"
    and ctx': "ctx' = fst (snd (Region e w ctx category label))"
    by simp_all
  have 1: "getContextValue_Region (heap w') ctx' parentRegionId = (True, ?r)"
    unfolding w' ctx' by (rule Region_new_context)
  have 2: "0 \<le> level ?r"
    using assms(1) by (simp add: reachable_levels_nonneg entered_nonneg)
  from Region_enter_log [of e w ctx category label] 1 2 show ?thesis
    unfolding w' by (auto simp: entered_level)
qed

theorem Region_nesting_level_witness:
  "reachable (fst region1) \<and>
   (\<exists>r. getContextValue_Region (heap (fst region2)) (fst (snd region2)) parentRegionId = (True, r)
        \<and> level r = 1)"
proof -
  have r: "reachable (fst region1)"
    unfolding region1_def by (rule reachable.r_Region) (rule reachable.r_new)
  have "region2 = (fst region2, fst (snd region2), snd (snd region2))" by simp
  then have "Region env0 (fst region1) (fst (snd region1)) ''bundle'' ''clone''
      = (fst region2, fst (snd region2), snd (snd region2))"
    by (simp add: region2_def)
  from Region_nesting_level [OF r this] r show ?thesis
    by (auto simp: region1_level)
qed

text \<open>
  C6. \<^verbatim>\<open>Region\<close> called on a context \<open>ctx\<close> of the store returns a context that did
  not exist before; the nodes that existed are as they were, so every value, and in
  particular the region and its level, seen through \<open>ctx\<close> or through any other
  context that existed is what it was before the call. The closure that leaves the region
  does not touch the store. A sibling region derived from \<open>ctx\<close> afterwards gets the
  same level as the first.
\<close>

theorem Region_frame:
  assumes "ctx < length (heap w)" and "Region e w ctx category label = (w', ctx', leave)"
  shows "length (heap w) \<le> ctx' \<and> ctx' < length (heap w') \<and>
         take (length (heap w)) (heap w') = heap w \<and>
         (\<forall>s k. s < length (heap w) \<longrightarrow> ctx_Value (heap w') s k = ctx_Value (heap w) s k) \<and>
         (\<forall>s. s < length (heap w) \<longrightarrow>
              getContextValue_Region (heap w') s parentRegionId =
              getContextValue_Region (heap w) s parentRegionId) \<and>
         (\<forall>e' w''. heap (leave e' w'') = heap w'') \<and>
         (\<forall>e2 category2 label2.
            level (snd (getContextValue_Region (heap (fst (Region e2 w' ctx category2 label2)))
                          (fst (snd (Region e2 w' ctx category2 label2))) parentRegionId))
            = level (snd (getContextValue_Region (heap w') ctx' parentRegionId)))"
proof -
  from Region_heap_prefix [of e w ctx category label] assms(2)
  obtain ext where ext: "heap w' = heap w @ ext" "ctx' = length (heap w @ ext) - 1" "ext \<noteq> []"
    by auto
  have frame: "\<And>s k. s < length (heap w) \<Longrightarrow> ctx_Value (heap w') s k = ctx_Value (heap w) s k"
    by (simp add: ext ctx_Value_append)
  have leave: "\<And>e' w''. heap (leave e' w'') = heap w''"
    using heap_leave [of e w ctx category label] assms(2) by simp
  have sib: "\<And>e2 category2 label2.
      level (snd (getContextValue_Region (heap (fst (Region e2 w' ctx category2 label2)))
                    (fst (snd (Region e2 w' ctx category2 label2))) parentRegionId))
      = level (snd (getContextValue_Region (heap w') ctx' parentRegionId))"
  proof -
    fix e2 category2 label2
    have "ctx_Value (heap w') ctx parentRegionId = ctx_Value (heap w) ctx parentRegionId"
      using assms(1) by (rule frame)
    then have "level (entered e2 (heap w') ctx) = level (entered e (heap w) ctx)"
      by (simp add: entered_def split: option.splits ctxval.splits)
    moreover have "level (snd (getContextValue_Region (heap w') ctx' parentRegionId))
        = level (entered e (heap w) ctx)"
      using Region_level_through [of e w ctx category label] assms(2) by simp
    ultimately show "level (snd (getContextValue_Region (heap (fst (Region e2 w' ctx category2 label2)))
                    (fst (snd (Region e2 w' ctx category2 label2))) parentRegionId))
      = level (snd (getContextValue_Region (heap w') ctx' parentRegionId))"
      by (simp add: Region_level_through)
  qed
  from ext have "length (heap w) \<le> ctx'" "ctx' < length (heap w')"
    by (cases ext, simp_all)+
  moreover have "take (length (heap w)) (heap w') = heap w" by (simp add: ext)
  ultimately show ?thesis
    using frame leave sib by (simp add: getContextValue_Region_def)
qed

theorem Region_frame_witness:
  "0 < length (heap NewTrace2) \<and>
   length (heap NewTrace2) \<le> fst (snd region1) \<and>
   fst (snd region1) < length (heap (fst region1)) \<and>
   take (length (heap NewTrace2)) (heap (fst region1)) = heap NewTrace2 \<and>
   getContextValue_Region (heap (fst region1)) 0 parentRegionId =
     getContextValue_Region (heap NewTrace2) 0 parentRegionId \<and>
   level (snd (getContextValue_Region (heap (fst (Region env0 (fst region1) 0 ''bundle'' ''fetch'')))
                 (fst (snd (Region env0 (fst region1) 0 ''bundle'' ''fetch''))) parentRegionId))
     = level (snd (getContextValue_Region (heap (fst region1)) (fst (snd region1)) parentRegionId))"
proof -
  have 0: "0 < length (heap NewTrace2)" by (simp add: NewTrace2_def)
  have "Region env0 NewTrace2 0 ''bundle'' ''init''
      = (fst region1, fst (snd region1), snd (snd region1))"
    by (simp add: region1_def)
  from Region_frame [OF 0 this] 0 show ?thesis by simp
qed

subsection \<open>Child ids\<close>

lemma child_ids_append: "child_ids (l @ l') = child_ids l @ child_ids l'"
  by (simp add: child_ids_def map_filter_def)

lemma child_ids_other:
  "msg \<noteq> tr2Event_ChildStart \<Longrightarrow>
     child_ids (log (logger_Log lvl e msg fs w)) = child_ids (log w)"
  by (simp add: log_logger_Log child_ids_append) (simp add: child_ids_def)

lemma child_ids_start:
  "child_ids (log (logger_Log lvl e tr2Event_ChildStart
      (with_fields (snd (snd (sharedFields e0 h ctx)))
         (zap_Int32 tr2Field_ChildId i # rest)) w))
   = child_ids (log w) @ [sint i]"
proof -
  have "map_of (snd (snd (sharedFields e0 h ctx)) @ zap_Int32 tr2Field_ChildId i # rest)
          tr2Field_ChildId = Some (Int32V (sint i))"
    by (subst sharedFields_keys) (simp_all add: tr2Field_defs zap_Int32_def)
  then show ?thesis
    by (simp add: log_logger_Log child_ids_append with_fields_def)
       (simp add: child_ids_def)
qed

lemma same_ids_logger_Log:
  "msg \<noteq> tr2Event_ChildStart \<Longrightarrow> child_ids (log w1) = child_ids (log w) \<Longrightarrow>
     lastChildId w1 = lastChildId w \<Longrightarrow> same_ids w (logger_Log lvl e msg fs w1)"
  by (simp add: same_ids_def child_ids_other lastChildId_logger_Log)

lemma same_ids_logStart: "same_ids w (fst (logStart e w ctx))"
  by (cases "sharedFields e (heap w) ctx")
     (simp add: logStart_def same_ids_logger_Log tr2Event_defs)

lemma same_ids_logExit: "same_ids w (logExit e w ctx code)"
  by (cases "sharedFields e (heap w) ctx")
     (simp add: logExit_def Let_def same_ids_logger_Log tr2Event_defs child_ids_other
        lastChildId_logger_Log)

lemma same_ids_LogCommand: "same_ids w (fst (LogCommand e w ctx name))"
  by (cases "sharedFields e (heap w) ctx")
     (simp add: LogCommand_def same_ids_logger_Log tr2Event_defs)

lemma same_ids_Region: "same_ids w (fst (Region e w ctx category label))"
  by (cases "sharedFields e (heap w) ctx")
     (simp add: Region_result same_ids_logger_Log tr2Event_defs)

lemma same_ids_leave: "same_ids w (snd (snd (Region e w0 ctx category label)) e' w)"
  by (cases "sharedFields e (heap w0) ctx")
     (simp add: Region_result same_ids_logger_Log tr2Event_defs)

lemma same_ids_childReady:
  "fst (snd (ChildProcess e w0 ctx cmd)) cmd' err e' w = Inr w' \<Longrightarrow> same_ids w w'"
  by (cases "sharedFields e (heap w0) ctx")
     (auto simp: childReady_result same_ids_logger_Log tr2Event_defs split: option.splits)

lemma same_ids_childExit:
  "snd (snd (ChildProcess e w0 ctx cmd)) cmd' e' w = Inr w' \<Longrightarrow> same_ids w w'"
  by (cases "sharedFields e (heap w0) ctx")
     (auto simp: childExit_result same_ids_logger_Log tr2Event_defs split: option.splits)

lemma same_ids_Error: "Error e w ctx err = Inr (w', err') \<Longrightarrow> same_ids w w'"
  by (cases "sharedFields e (heap w) ctx")
     (auto simp: Error_def child_ids_other lastChildId_logger_Log tr2Event_defs same_ids_def
        split: if_splits)

lemma same_ids_Errorf: "same_ids w (fst (Errorf e w ctx format a))"
  by (cases "sharedFields e (heap w) ctx")
     (auto simp: Errorf_def Let_def child_ids_other lastChildId_logger_Log tr2Event_defs
        same_ids_def)

lemma ChildProcess_ids:
  "child_ids (log (fst (ChildProcess e w ctx cmd))) = child_ids (log w) @ [sint (lastChildId w + 1)]"
  "lastChildId (fst (ChildProcess e w ctx cmd)) = lastChildId w + 1"
proof -
  obtain h1 ctx1 sf0 where sf: "sharedFields e (heap w) ctx = (h1, ctx1, sf0)"
    by (cases "sharedFields e (heap w) ctx")
  have sf0: "sf0 = snd (snd (sharedFields e (heap w) ctx))" using sf by simp
  show "child_ids (log (fst (ChildProcess e w ctx cmd))) = child_ids (log w) @ [sint (lastChildId w + 1)]"
    unfolding ChildProcess_result [OF sf] sf0 by (simp add: child_ids_start)
  show "lastChildId (fst (ChildProcess e w ctx cmd)) = lastChildId w + 1"
    unfolding ChildProcess_result [OF sf] by (simp add: lastChildId_logger_Log)
qed

lemma ids_inv_same: "ids_inv w \<Longrightarrow> same_ids w w' \<Longrightarrow> ids_inv w'"
  by (simp add: ids_inv_def same_ids_def)

lemma ids_inv_ChildProcess:
  assumes "ids_inv w" shows "ids_inv (fst (ChildProcess e w ctx cmd))"
proof -
  let ?n = "length (child_ids (log w))"
  from assms have a: "child_ids (log w) = map (\<lambda>i. sint (word_of_nat i :: 32 word)) [0..<?n]"
    and b: "lastChildId w = word_of_nat ?n - 1"
    by (simp_all add: ids_inv_def)
  have len: "length (child_ids (log (fst (ChildProcess e w ctx cmd)))) = Suc ?n"
    by (simp add: ChildProcess_ids)
  have "child_ids (log (fst (ChildProcess e w ctx cmd)))
        = map (\<lambda>i. sint (word_of_nat i :: 32 word)) [0..<Suc ?n]"
    using a by (simp add: ChildProcess_ids b)
  then show ?thesis
    unfolding ids_inv_def len by (simp add: ChildProcess_ids b)
qed

lemma reachable_ids_inv: "reachable w \<Longrightarrow> ids_inv w"
proof (induction rule: reachable.induct)
  case r_new
  show ?case by (simp add: ids_inv_def NewTrace2_def child_ids_def map_filter_simps)
next
  case (r_background w)
  then show ?case by (simp add: ids_inv_def)
next
  case (r_other w p)
  then show ?case by (simp add: ids_inv_def)
next
  case (r_ChildProcess w e ctx cmd)
  then show ?case by (simp add: ids_inv_ChildProcess)
qed (blast intro: ids_inv_same same_ids_logStart same_ids_logExit same_ids_LogCommand
      same_ids_Region same_ids_leave same_ids_childReady same_ids_childExit same_ids_Error
      same_ids_Errorf)+

lemma sint_small: "i < 2 ^ 31 \<Longrightarrow> sint (word_of_nat i :: 32 word) = int i"
  by (simp add: signed_of_nat signed_take_bit_int_eq_self)

lemma sint_wrap: "sint (word_of_nat (2 ^ 31) :: 32 word) = - (2 ^ 31)"
  by simp

lemma ids_small:
  "n \<le> 2 ^ 31 \<Longrightarrow> map (\<lambda>i. sint (word_of_nat i :: 32 word)) [0..<n] = map int [0..<n]"
  by (rule map_cong) (simp_all add: sint_small)

lemma reachable_spawn_all: "reachable w \<Longrightarrow> reachable (spawn_all w calls)"
  by (induction calls arbitrary: w) (auto simp: reachable.r_ChildProcess)

lemma length_ids_spawn_all:
  "length (child_ids (log (spawn_all w calls))) = length (child_ids (log w)) + length calls"
  by (induction calls arbitrary: w) (auto simp: ChildProcess_ids)

text \<open>
  C7, as amended. In any world the recorder can be in, as long as \<^verbatim>\<open>ChildProcess\<close> was
  called at most \<open>2\<^sup>3\<^sup>1\<close> times, the child ids assigned so far are \<open>0, 1, \<dots>, N - 1\<close>
  in the order of the calls: they are distinct and strictly increasing.
\<close>

theorem child_ids_permutation:
  assumes "reachable w" and "length (child_ids (log w)) \<le> 2 ^ 31"
  shows "child_ids (log w) = map int [0..<length (child_ids (log w))] \<and>
         distinct (child_ids (log w)) \<and> sorted_wrt (<) (child_ids (log w))"
proof -
  let ?n = "length (child_ids (log w))"
  from assms(1) have "child_ids (log w) = map (\<lambda>i. sint (word_of_nat i :: 32 word)) [0..<?n]"
    using reachable_ids_inv by (simp add: ids_inv_def)
  with assms(2) have eq: "child_ids (log w) = map int [0..<?n]"
    by (simp add: ids_small)
  have "distinct (map int [0..<?n])"
    by (simp add: distinct_map)
  moreover have "sorted_wrt (<) (map int [0..<?n])"
    by (simp add: sorted_wrt_map)
  ultimately show ?thesis using eq by metis
qed

theorem child_ids_permutation_witness:
  "reachable (spawn_all NewTrace2 [(env0, 0, cmd0), (env0, 0, cmd0)]) \<and>
   length (child_ids (log (spawn_all NewTrace2 [(env0, 0, cmd0), (env0, 0, cmd0)]))) \<le> 2 ^ 31 \<and>
   child_ids (log (spawn_all NewTrace2 [(env0, 0, cmd0), (env0, 0, cmd0)])) = [0, 1]"
proof -
  let ?w = "spawn_all NewTrace2 [(env0, 0, cmd0), (env0, 0, cmd0)]"
  have r: "reachable ?w" by (rule reachable_spawn_all) (rule reachable.r_new)
  have "child_ids (log NewTrace2) = []" by (simp add: NewTrace2_def child_ids_def)
  then have len: "length (child_ids (log ?w)) = 2"
    by (simp add: length_ids_spawn_all del: spawn_all.simps)
  then have le: "length (child_ids (log ?w)) \<le> 2 ^ 31" by simp
  have "[0..<2] = [0, Suc 0]" by (simp add: upt_rec)
  with child_ids_permutation [OF r le] r le show ?thesis
    unfolding len by simp
qed

text \<open>
  The counter is an \<^verbatim>\<open>int32\<close> and \<^verbatim>\<open>atomic.AddInt32\<close> wraps around: the call
  after the \<open>2\<^sup>3\<^sup>1\<close>-th gets the id \<open>- 2\<^sup>3\<^sup>1\<close>, below the one before it.
\<close>

theorem child_ids_wrap_counterexample:
  "\<not> sorted_wrt (<)
       (child_ids (log (spawn_all NewTrace2 (replicate (2 ^ 31 + 1) (env0, 0, cmd0)))))"
proof -
  let ?w = "spawn_all NewTrace2 (replicate (2 ^ 31 + 1) (env0, 0, cmd0))"
  have "reachable ?w" by (simp add: reachable_spawn_all reachable.r_new)
  then have inv: "ids_inv ?w" by (rule reachable_ids_inv)
  have "child_ids (log NewTrace2) = []" by (simp add: NewTrace2_def child_ids_def)
  then have len: "length (child_ids (log ?w)) = 2 ^ 31 + 1"
    by (simp add: length_ids_spawn_all)
  from inv have ids: "child_ids (log ?w) =
      map (\<lambda>i. sint (word_of_nat i :: 32 word)) [0..<2 ^ 31 + 1]"
    unfolding ids_inv_def len by simp
  have a: "child_ids (log ?w) ! (2 ^ 31 - 1) = 2 ^ 31 - 1"
    unfolding ids by (subst nth_map) (simp_all add: sint_small)
  have b: "child_ids (log ?w) ! (2 ^ 31) = - (2 ^ 31)"
    unfolding ids by (subst nth_map) simp_all
  show ?thesis
  proof
    assume "sorted_wrt (<) (child_ids (log ?w))"
    then have "child_ids (log ?w) ! (2 ^ 31 - 1) < child_ids (log ?w) ! (2 ^ 31)"
      by (rule sorted_wrt_nth_less) (use len in simp_all)
    with a b show False by simp
  qed
qed

subsection \<open>A raw error passed to Error, and the ready callback\<close>

text \<open>
  C3. \<^verbatim>\<open>Error\<close> called on a raw error, as a subcommand does with the error of a
  provider, emits nothing: the raw error gets no "error" entry at this wrapping site, the
  deepest one. \<^verbatim>\<open>Errorf\<close> called on it afterwards emits one informational "error"
  entry with the format string; this is the only entry the error ever gets.
\<close>

theorem raw_error_not_emitted_by_Error:
  "Error e w ctx (Err m) = Inr (w, Err m) \<and>
   log (fst (Errorf e' w ctx' format [AnyError (Err m)])) =
     log w @ [(\<lparr>Level = InfoLevel, Time = now e', Message = tr2Event_Error\<rparr>,
               with_fields (snd (snd (sharedFields e' (heap w) ctx')))
                 [zap_String tr2Field_Msg (fmt_Sprintf e' format [AnyError (Err m)]),
                  zap_String tr2Field_Fmt format])]"
proof -
  have "list_ex any_is_loggedError [AnyError (Err m)]"
    by (simp add: is_loggedError_def)
  then show ?thesis
    by (simp add: Error_not_nil Errorf_logged_arg)
qed

text \<open>
  C9. The ready callback reads \<^verbatim>\<open>cmd.Process.Pid\<close> whatever its argument is. When
  the command has no process handle, which is the case when the child failed to start,
  the call is a nil dereference: it panics and no "child_ready" entry is made.
\<close>

theorem childReady_without_process_panics:
  "fst (snd (ChildProcess e w ctx cmd)) (cmd'\<lparr>Process := None\<rparr>) execError e' w' =
     Inl NilDereference"
  by (cases "sharedFields e (heap w) ctx") (simp add: childReady_result)

section \<open>Properties of the encoders\<close>

lemmas zap_defs =
  zap_String_def zap_Int_def zap_Int32_def zap_Duration_def zap_Bool_def zap_Strings_def

lemmas width_defs =
  tr2Enc_Perf_FileLineWidth_def tr2Enc_Perf_ThreadWidth_def tr2Enc_Perf_EventWidth_def
  tr2Enc_Perf_CategoryWidth_def

lemma replicate_numeral: "replicate (numeral k) x = x # replicate (pred_numeral k) x"
  by (simp add: numeral_eq_Suc)

lemmas pad_defs = pad_right_def pad_left_def rune_count_def is_cont_def replicate_numeral

lemmas enc_step1 =
  EncodeEntry_def Let_def NewTr2PerfEncoder_def AddTo_def zap_defs bindE_def
  getRequiredField_def getField_def tr2Field_defs

lemmas enc_step2 =
  tr2Event_defs getEventLog_def bindE_def getRequiredField_def getField_def tr2Field_defs
  elapsedColumn_def fmt_s_def fmt_d_def fmt_s_left_def fmt_s_left_prec_def width_defs pad_defs

lemma Fields_foldl:
  "Fields (foldl (\<lambda>t f. AddTo f t) t0 fs) k =
     (case map_of (rev fs) k of None \<Rightarrow> Fields t0 k | Some v \<Rightarrow> Some (field_value v))"
  by (induction fs arbitrary: t0) (auto simp: AddTo_def map_add_def split: option.splits)

lemma isBrief_foldl: "isBrief (foldl (\<lambda>t f. AddTo f t) t0 fs) = isBrief t0"
  by (induction fs arbitrary: t0) (auto simp: AddTo_def)

lemma Fields_absent:
  "Fields (foldl (\<lambda>t f. AddTo f t) (NewTr2PerfEncoder b) fs) k = None \<longleftrightarrow> k \<notin> fst ` set fs"
proof -
  have "map_of (rev fs) k = None \<longleftrightarrow> k \<notin> fst ` set fs"
    by (simp add: map_of_eq_None_iff)
  then show ?thesis
    by (cases "map_of (rev fs) k") (simp_all add: Fields_foldl NewTr2PerfEncoder_def)
qed

lemma enc_ok_bindE:
  "enc_ok t x \<Longrightarrow> (\<And>v. enc_ok t (f v)) \<Longrightarrow> enc_ok t (bindE x f)"
  by (cases x) (simp_all add: bindE_def enc_ok_def)

lemma enc_fails_bindE:
  "enc_ok t x \<Longrightarrow> (\<And>v. enc_fails t (f v)) \<Longrightarrow> enc_fails t (bindE x f)"
  by (cases x) (simp_all add: bindE_def enc_ok_def enc_fails_def)

lemma enc_fails_bindE_first: "enc_fails t x \<Longrightarrow> enc_fails t (bindE x f)"
  by (cases x) (simp_all add: bindE_def enc_ok_def enc_fails_def)

lemma enc_ok_Inr: "enc_ok t (Inr v)"
  by (simp add: enc_ok_def)

lemma enc_ok_getRequiredField: "enc_ok t (getRequiredField t k)"
  by (simp add: enc_ok_def getRequiredField_def getField_def split: option.splits)

lemma enc_ok_elapsedColumn: "enc_ok t (elapsedColumn fe x)"
  by (auto simp: enc_ok_def elapsedColumn_def bindE_def assert_Duration_def
      split: option.splits goval.splits)

lemma enc_ok_dots:
  "enc_ok t (case x of None \<Rightarrow> Inr [] | Some val \<Rightarrow> bindE (assert_int val) (strings_Repeat ''.''))"
  by (auto simp: enc_ok_def bindE_def assert_int_def strings_Repeat_def
      split: option.splits goval.splits)

lemma enc_fails_getRequiredField:
  "Fields t k = None \<Longrightarrow> enc_fails t (bindE (getRequiredField t k) f)"
  by (simp add: enc_fails_def enc_ok_def bindE_def getRequiredField_def getField_def)

lemma getEventLog_fails:
  assumes "r \<in> set (required_fields event)" and "Fields t r = None"
  shows "enc_fails t (getEventLog fe t event)"
proof -
  consider "event = tr2Event_CmdName" | "event = tr2Event_ChildStart"
    | "event = tr2Event_ChildReady" | "event = tr2Event_ChildExit"
    | "event = tr2Event_Exit" | "event = tr2Event_AtExit"
    using assms(1) by (auto simp: required_fields_def split: if_splits)
  then show ?thesis
  proof cases
    case 1
    with assms show ?thesis
      by (simp add: required_fields_def getEventLog_def enc_fails_getRequiredField)
  next
    case 2
    with assms have "r = tr2Field_ChildId \<or> r = tr2Field_ChildClass \<or> r = tr2Field_Argv"
      by (simp add: required_fields_def tr2Event_defs)
    with assms(2) have
      "enc_fails t
        (bindE (getRequiredField t tr2Field_ChildId) (\<lambda>childId.
         bindE (getRequiredField t tr2Field_ChildClass) (\<lambda>childClass.
         bindE (getRequiredField t tr2Field_Argv) (\<lambda>argv.
          (case json_Marshal fe argv of
             None \<Rightarrow> Inl (CouldNotFormatArgv tr2Field_Argv)
           | Some argvBuf \<Rightarrow>
               Inr (''[ch'' @ fmt_d fe childId @ ''] class:'' @ fmt_s fe childClass
                    @ '' argv:'' @ argvBuf))))))"
      by (auto simp: enc_fails_def enc_ok_def bindE_def getRequiredField_def getField_def
          split: option.splits)
    with 2 show ?thesis by (simp add: getEventLog_def tr2Event_defs)
  next
    case 3
    with assms have "r = tr2Field_ChildId \<or> r = tr2Field_Pid \<or> r = tr2Field_Ready"
      by (simp add: required_fields_def tr2Event_defs)
    with assms(2) have
      "enc_fails t
        (bindE (getRequiredField t tr2Field_ChildId) (\<lambda>childId.
         bindE (getRequiredField t tr2Field_Pid) (\<lambda>pid.
         bindE (getRequiredField t tr2Field_Ready) (\<lambda>ready.
          Inr (''[ch'' @ fmt_d fe childId @ ''] pid:'' @ fmt_d fe pid
               @ '' ready:'' @ fmt_s fe ready)))))"
      by (auto simp: enc_fails_def enc_ok_def bindE_def getRequiredField_def getField_def
          split: option.splits)
    with 3 show ?thesis by (simp add: getEventLog_def tr2Event_defs)
  next
    case 4
    with assms have "r = tr2Field_ChildId \<or> r = tr2Field_Pid \<or> r = tr2Field_Code"
      by (simp add: required_fields_def tr2Event_defs)
    with assms(2) have
      "enc_fails t
        (bindE (getRequiredField t tr2Field_ChildId) (\<lambda>childId.
         bindE (getRequiredField t tr2Field_Pid) (\<lambda>pid.
         bindE (getRequiredField t tr2Field_Code) (\<lambda>code.
          Inr (''[ch'' @ fmt_d fe childId @ ''] pid:'' @ fmt_d fe pid
               @ '' code:'' @ fmt_d fe code)))))"
      by (auto simp: enc_fails_def enc_ok_def bindE_def getRequiredField_def getField_def
          split: option.splits)
    with 4 show ?thesis by (simp add: getEventLog_def tr2Event_defs)
  next
    case 5
    with assms show ?thesis
      by (simp add: required_fields_def getEventLog_def enc_fails_getRequiredField tr2Event_defs)
  next
    case 6
    with assms show ?thesis
      by (simp add: required_fields_def getEventLog_def enc_fails_getRequiredField tr2Event_defs)
  qed
qed

lemma EncodeEntry_fails:
  assumes "r \<in> set (required_fields (Message ent))"
    and "Fields (foldl (\<lambda>t f. AddTo f t) t0 fs) r = None"
  shows "enc_fails (foldl (\<lambda>t f. AddTo f t) t0 fs) (snd (EncodeEntry fe t0 ent fs))"
proof -
  let ?t = "foldl (\<lambda>t f. AddTo f t) t0 fs"
  have g: "enc_fails ?t (getEventLog fe ?t (Message ent))"
    using assms by (rule getEventLog_fails)
  have first: "enc_ok ?t
     (if \<not> isBrief ?t then
        bindE (getRequiredField ?t tr2Field_File) (\<lambda>file.
        bindE (getRequiredField ?t tr2Field_Line) (\<lambda>line.
          Inr (time_Format fe (Time ent) @ '' ''
               @ fileLineColumn tr2Enc_Perf_FileLineWidth
                   (fmt_s fe file @ '':'' @ fmt_d fe line))))
      else Inr [])"
    by (auto intro!: enc_ok_bindE enc_ok_getRequiredField enc_ok_Inr)
  show ?thesis
    unfolding EncodeEntry_def Let_def snd_conv
    apply (rule enc_fails_bindE, rule first)
    apply (rule enc_fails_bindE, rule enc_ok_getRequiredField)
    apply (rule enc_fails_bindE, rule enc_ok_elapsedColumn)
    apply (rule enc_fails_bindE, rule enc_ok_elapsedColumn)
    apply (rule enc_fails_bindE, rule enc_ok_dots)
    apply (rule enc_fails_bindE_first, rule g)
    done
qed

lemma show_int_123456: "show_int 123456 = ''123456''"
  by (simp add: show_int_def show_nat.simps)

lemma show_int_12: "show_int 12 = ''12''"
  by (simp add: show_int_def show_nat.simps)

lemma fileLineColumn_35:
  "fileLineColumn tr2Enc_Perf_FileLineWidth ''internal_command_executor.go:123456'' =
     ''internal_command_executor.go:123... | ''"
  by (simp add: fileLineColumn_def width_defs pad_defs)

lemma show_int_0: "show_int 0 = ''0''"
  by (simp add: show_int_def show_nat.simps)

lemma fileLineColumn_main:
  "fileLineColumn tr2Enc_Perf_FileLineWidth ''main.go:12'' =
     ''main.go:12                   | ''"
  by (simp add: fileLineColumn_def width_defs pad_defs)

lemma child_exit_without_pid:
  "snd (EncodeEntry fe (NewTr2PerfEncoder False)
      \<lparr>Level = DebugLevel, Time = t, Message = ''child_exit''\<rparr>
      [zap_String ''sid'' sid, zap_String ''thread'' ''main'',
       zap_String ''file'' ''exec.go'', zap_Int ''line'' 7,
       zap_Int32 ''child_id'' 0, zap_Int ''code'' 0, zap_Duration ''t_rel'' d])
     = Inl (MissingRequiredField ''pid'')"
  apply (simp add: enc_step1 del: append.simps)
  apply (simp add: enc_step2 assert_Duration_def del: append.simps)
  done

text \<open>
  The encoder keeps the fields of the entries it has encoded: a "child_exit" entry without
  \<^verbatim>\<open>pid\<close> is encoded, with the pid of the entry before it, by an encoder that has
  encoded a "child_ready" entry.
\<close>

lemma stale_field_accepted:
  "snd (EncodeEntry fe
          (fst (EncodeEntry fe (NewTr2PerfEncoder False)
                  \<lparr>Level = DebugLevel, Time = t, Message = ''child_ready''\<rparr>
                  [zap_String ''sid'' sid, zap_String ''thread'' ''main'',
                   zap_String ''file'' ''exec.go'', zap_Int ''line'' 7,
                   zap_Int32 ''child_id'' 0, zap_Int ''pid'' 4711,
                   zap_String ''ready'' ''ready'']))
          \<lparr>Level = DebugLevel, Time = t', Message = ''child_exit''\<rparr>
          [zap_String ''sid'' sid, zap_String ''thread'' ''main'',
           zap_String ''file'' ''exec.go'', zap_Int ''line'' 7,
           zap_Int32 ''child_id'' 0, zap_Int ''code'' 0])
     = Inr (time_Format fe t' @ '' '' @ ''exec.go:7                    | d0 | main                     | child_exit   |     |           |           |              | [ch0] pid:4711 code:0''
            @ [CHR 0x0A])"
proof -
  have n: "show_int 7 = ''7''" "show_int 0 = ''0''" "show_int 4711 = ''4711''"
    by (simp_all add: show_int_def show_nat.simps)
  have fl: "''exec.go'' @ '':'' @ ''7'' = ''exec.go:7''" by simp
  have col: "fileLineColumn tr2Enc_Perf_FileLineWidth ''exec.go:7'' =
     ''exec.go:7                    | ''"
    by (simp add: fileLineColumn_def width_defs pad_defs)
  show ?thesis
    apply (simp add: enc_step1 fmt_s_def fmt_d_def n del: append.simps)
    apply (simp only: fl col)
    apply (simp add: enc_step2 n)
    done
qed

text \<open>
  A field \<^verbatim>\<open>t_abs\<close> that is not a duration makes the type assertion panic before the
  required fields of the event are looked at.
\<close>

lemma wrong_type_panics:
  "snd (EncodeEntry fe (NewTr2PerfEncoder False)
          \<lparr>Level = DebugLevel, Time = t, Message = ''child_exit''\<rparr>
          [zap_String ''sid'' sid, zap_String ''thread'' ''main'',
           zap_String ''file'' ''exec.go'', zap_Int ''line'' 7,
           zap_String ''t_abs'' ''0.5'',
           zap_Int32 ''child_id'' 0, zap_Int ''code'' 0])
     = Inl (EncPanic (TypeAssertion ''time.Duration''))"
  apply (simp add: enc_step1 del: append.simps)
  apply (simp add: enc_step2 assert_Duration_def del: append.simps)
  done

text \<open>
  C2, as amended. For an event among "cmd_name", "child_start", "child_ready",
  "child_exit", "exit" and "atexit", and a field set that lacks a field which
  \<^verbatim>\<open>getEventLog\<close> requires for it, a fresh encoder returns no buffer: the result is a
  missing-field error that names a field absent from the field set, or a panic (which a
  field \<^verbatim>\<open>t_abs\<close>, \<^verbatim>\<open>t_rel\<close> or \<^verbatim>\<open>nesting\<close> of a dynamic type the encoder
  does not accept raises before the required fields are looked at).
\<close>

theorem missing_required_field_fails:
  assumes "r \<in> set (required_fields (Message ent))" and "r \<notin> fst ` set fs"
  shows "(\<exists>f. f \<notin> fst ` set fs \<and>
              snd (EncodeEntry fe (NewTr2PerfEncoder b) ent fs) = Inl (MissingRequiredField f)) \<or>
         (\<exists>p. snd (EncodeEntry fe (NewTr2PerfEncoder b) ent fs) = Inl (EncPanic p))"
proof -
  let ?t = "foldl (\<lambda>t f. AddTo f t) (NewTr2PerfEncoder b) fs"
  from assms(2) have "Fields ?t r = None" by (simp add: Fields_absent)
  with assms(1) have "enc_fails ?t (snd (EncodeEntry fe (NewTr2PerfEncoder b) ent fs))"
    by (rule EncodeEntry_fails)
  then show ?thesis
    by (auto simp: enc_fails_def enc_ok_def Fields_absent split: sum.splits encerr.splits)
qed

theorem missing_required_field_fails_witness:
  "''pid'' \<in> set (required_fields (Message \<lparr>Level = DebugLevel, Time = 0, Message = ''child_exit''\<rparr>)) \<and>
   ''pid'' \<notin> fst ` set [zap_String ''sid'' ''s1'', zap_String ''thread'' ''main'',
                           zap_String ''file'' ''exec.go'', zap_Int ''line'' 7,
                           zap_Int32 ''child_id'' 0, zap_Int ''code'' 0, zap_Duration ''t_rel'' 10] \<and>
   ((\<exists>f. f \<notin> fst ` set [zap_String ''sid'' ''s1'', zap_String ''thread'' ''main'',
                           zap_String ''file'' ''exec.go'', zap_Int ''line'' 7,
                           zap_Int32 ''child_id'' 0, zap_Int ''code'' 0, zap_Duration ''t_rel'' 10] \<and>
     snd (EncodeEntry fe0 (NewTr2PerfEncoder False)
          \<lparr>Level = DebugLevel, Time = 0, Message = ''child_exit''\<rparr>
          [zap_String ''sid'' ''s1'', zap_String ''thread'' ''main'',
           zap_String ''file'' ''exec.go'', zap_Int ''line'' 7,
           zap_Int32 ''child_id'' 0, zap_Int ''code'' 0, zap_Duration ''t_rel'' 10])
       = Inl (MissingRequiredField f)) \<or>
    (\<exists>p. snd (EncodeEntry fe0 (NewTr2PerfEncoder False)
          \<lparr>Level = DebugLevel, Time = 0, Message = ''child_exit''\<rparr>
          [zap_String ''sid'' ''s1'', zap_String ''thread'' ''main'',
           zap_String ''file'' ''exec.go'', zap_Int ''line'' 7,
           zap_Int32 ''child_id'' 0, zap_Int ''code'' 0, zap_Duration ''t_rel'' 10])
       = Inl (EncPanic p))) \<and>
   snd (EncodeEntry fe0 (NewTr2PerfEncoder False)
          \<lparr>Level = DebugLevel, Time = 0, Message = ''child_exit''\<rparr>
          [zap_String ''sid'' ''s1'', zap_String ''thread'' ''main'',
           zap_String ''file'' ''exec.go'', zap_Int ''line'' 7,
           zap_Int32 ''child_id'' 0, zap_Int ''code'' 0, zap_Duration ''t_rel'' 10])
     = Inl (MissingRequiredField ''pid'')"
proof -
  let ?ent = "\<lparr>Level = DebugLevel, Time = 0, Message = ''child_exit''\<rparr>"
  let ?fs = "[zap_String ''sid'' ''s1'', zap_String ''thread'' ''main'',
              zap_String ''file'' ''exec.go'', zap_Int ''line'' 7,
              zap_Int32 ''child_id'' 0, zap_Int ''code'' 0, zap_Duration ''t_rel'' 10]"
  have h1: "''pid'' \<in> set (required_fields (Message ?ent))"
    by (simp add: required_fields_def tr2Event_defs tr2Field_defs)
  have h2: "''pid'' \<notin> fst ` set ?fs"
    by (simp add: zap_defs)
  note missing_required_field_fails [OF h1 h2, of fe0 False]
  with h1 h2 child_exit_without_pid [of fe0 0 "''s1''" 10] show ?thesis by blast
qed

text \<open>
  For "start" nothing is required by the code: a "start" entry without \<^verbatim>\<open>argv\<close> is
  encoded.
\<close>

theorem start_without_argv_succeeds:
  "''argv'' \<notin> fst ` set [zap_String ''sid'' ''s1'', zap_String ''thread'' ''main'',
           zap_String ''file'' ''main.go'', zap_Int ''line'' 12, zap_Duration ''t_abs'' 1000] \<and>
   snd (EncodeEntry fe0 (NewTr2PerfEncoder False)
          \<lparr>Level = InfoLevel, Time = 0, Message = ''start''\<rparr>
          [zap_String ''sid'' ''s1'', zap_String ''thread'' ''main'',
           zap_String ''file'' ''main.go'', zap_Int ''line'' 12, zap_Duration ''t_abs'' 1000])
     = Inr (''12:00:00.000000 main.go:12                   | d0 | main                     | start        |     |  0.000000 |           |              | '' @ [CHR 0x0A])"
proof -
  have fl: "''main.go'' @ '':'' @ ''12'' = ''main.go:12''" by simp
  have "snd (EncodeEntry fe0 (NewTr2PerfEncoder False)
          \<lparr>Level = InfoLevel, Time = 0, Message = ''start''\<rparr>
          [zap_String ''sid'' ''s1'', zap_String ''thread'' ''main'',
           zap_String ''file'' ''main.go'', zap_Int ''line'' 12, zap_Duration ''t_abs'' 1000])
     = Inr (''12:00:00.000000 main.go:12                   | d0 | main                     | start        |     |  0.000000 |           |              | '' @ [CHR 0x0A])"
    apply (simp add: enc_step1 fmt_s_def fmt_d_def show_int_12 del: append.simps)
    apply (simp only: fl fileLineColumn_main)
    apply (simp add: enc_step2 assert_Duration_def fe0_def)
    done
  then show ?thesis by (simp add: zap_defs)
qed

text \<open>
  C4. A file and line of 35 characters: the encoder replaces the last three characters by
  an ellipsis and keeps the length, so the column holds 35 characters, not 28. Both
  versions of \<^verbatim>\<open>EncodeEntry\<close> do so.
\<close>

theorem fileLine_35_rendered_as_35:
  "length ''internal_command_executor.go:123456'' = 35 \<and>
   snd (EncodeEntry fe (NewTr2PerfEncoder False)
          \<lparr>Level = ErrorLevel, Time = t, Message = ''error''\<rparr>
          [zap_String ''sid'' sid, zap_String ''thread'' ''main'',
           zap_String ''file'' ''internal_command_executor.go'', zap_Int ''line'' 123456])
     = Inr (time_Format fe t @ '' '' @ ''internal_command_executor.go:123...'' @
            '' | d0 | main                     | error        |     |           |           |              | ''
            @ [CHR 0x0A]) \<and>
   EncodeEntry_cfg fe \<lparr>Level = ErrorLevel, Time = t, Message = ''error''\<rparr>
          [zap_String ''sid'' sid, zap_String ''thread'' ''main'',
           zap_String ''file'' ''internal_command_executor.go'', zap_Int ''line'' 123456]
     = Inr (time_Format fe t @ '' '' @ ''internal_command_executor.go:123...'' @
            '' | d0 | main                     | error        |     |           |           |              | ''
            @ [CHR 0x0A]) \<and>
   length ''internal_command_executor.go:123...'' = 35"
proof -
  have fl: "''internal_command_executor.go'' @ '':'' @ ''123456''
      = ''internal_command_executor.go:123456''" by simp
  have 1: "snd (EncodeEntry fe (NewTr2PerfEncoder False)
          \<lparr>Level = ErrorLevel, Time = t, Message = ''error''\<rparr>
          [zap_String ''sid'' sid, zap_String ''thread'' ''main'',
           zap_String ''file'' ''internal_command_executor.go'', zap_Int ''line'' 123456])
     = Inr (time_Format fe t @ '' '' @ ''internal_command_executor.go:123...'' @
            '' | d0 | main                     | error        |     |           |           |              | ''
            @ [CHR 0x0A])"
    apply (simp add: enc_step1 fmt_s_def fmt_d_def show_int_123456 del: append.simps)
    apply (simp only: fl fileLineColumn_35)
    apply (simp add: enc_step2)
    done
  have 2: "EncodeEntry_cfg fe \<lparr>Level = ErrorLevel, Time = t, Message = ''error''\<rparr>
          [zap_String ''sid'' sid, zap_String ''thread'' ''main'',
           zap_String ''file'' ''internal_command_executor.go'', zap_Int ''line'' 123456]
     = Inr (time_Format fe t @ '' '' @ ''internal_command_executor.go:123...'' @
            '' | d0 | main                     | error        |     |           |           |              | ''
            @ [CHR 0x0A])"
    apply (simp add: EncodeEntry_cfg_def zap_defs bindE_def Let_def show_int_123456 del: append.simps)
    apply (simp only: fl fileLineColumn_35)
    apply (simp add: elapsedColumn_cfg_def width_defs pad_defs)
    done
  from 1 2 show ?thesis by simp
qed

text \<open>
  C1. The logger has one core, the core of the event channel, and its encoder is the
  performance-table encoder. A "child_exit" entry without \<^verbatim>\<open>pid\<close>, made when the
  caller frame is not known (no \<^verbatim>\<open>file\<close> and \<^verbatim>\<open>line\<close>), is refused on the event
  channel with the error of the performance-table encoder and nothing reaches the sink.
  The encoder of \<^verbatim>\<open>tr2-perf-encoder.go\<close> refuses the same entry, and refuses it for
  the missing \<^verbatim>\<open>pid\<close> when file and line are there.
\<close>

theorem event_core_uses_perf_encoder:
  "createTrace2ZapLogger = [Tr2PerfEncoder] \<and>
   core_Write json fe createTrace2EventCore sink
      \<lparr>Level = DebugLevel, Time = t, Message = ''child_exit''\<rparr>
      [zap_String ''sid'' sid, zap_String ''thread'' ''main'',
       zap_Int32 ''child_id'' 0, zap_Int ''code'' 0, zap_Duration ''t_rel'' d]
     = (sink, Some (CouldNotFindLogField ''file'')) \<and>
   snd (EncodeEntry fe (NewTr2PerfEncoder False)
      \<lparr>Level = DebugLevel, Time = t, Message = ''child_exit''\<rparr>
      [zap_String ''sid'' sid, zap_String ''thread'' ''main'',
       zap_Int32 ''child_id'' 0, zap_Int ''code'' 0, zap_Duration ''t_rel'' d])
     = Inl (MissingRequiredField ''file'') \<and>
   snd (EncodeEntry fe (NewTr2PerfEncoder False)
      \<lparr>Level = DebugLevel, Time = t, Message = ''child_exit''\<rparr>
      [zap_String ''sid'' sid, zap_String ''thread'' ''main'',
       zap_String ''file'' ''exec.go'', zap_Int ''line'' 7,
       zap_Int32 ''child_id'' 0, zap_Int ''code'' 0, zap_Duration ''t_rel'' d])
     = Inl (MissingRequiredField ''pid'')"
proof -
  have 1: "createTrace2ZapLogger = [Tr2PerfEncoder]"
    by (simp add: createTrace2ZapLogger_def createTrace2EventCore_def)
  have 2: "core_Write json fe createTrace2EventCore sink
      \<lparr>Level = DebugLevel, Time = t, Message = ''child_exit''\<rparr>
      [zap_String ''sid'' sid, zap_String ''thread'' ''main'',
       zap_Int32 ''child_id'' 0, zap_Int ''code'' 0, zap_Duration ''t_rel'' d]
     = (sink, Some (CouldNotFindLogField ''file''))"
    by (simp add: createTrace2EventCore_def core_Write_def core_EncodeEntry_def
        EncodeEntry_cfg_def bindE_def zap_defs)
  have 3: "snd (EncodeEntry fe (NewTr2PerfEncoder False)
      \<lparr>Level = DebugLevel, Time = t, Message = ''child_exit''\<rparr>
      [zap_String ''sid'' sid, zap_String ''thread'' ''main'',
       zap_Int32 ''child_id'' 0, zap_Int ''code'' 0, zap_Duration ''t_rel'' d])
     = Inl (MissingRequiredField ''file'')"
    by (simp add: enc_step1 del: append.simps)
  from 1 2 3 child_exit_without_pid [of fe t sid d] show ?thesis by simp
qed

end
